theory Spec2Isabelle
  imports Main "HOL-Library.Sublist"
begin

section \<open>Errors, promise outcomes and constants\<close>

text \<open>
  The status codes of \<open>ApiStatusCodes\<close> that \<open>CaptainManager.ts\<close> uses. Their numeric
  values live outside the file, so they are kept symbolic.
\<close>

datatype status_code =
    STATUS_ERROR_GENERIC
  | STATUS_ERROR_NOT_AUTHORIZED
  | VERIFICATION_FAILED

text \<open>
  An error value: \<open>ApiStatusCodes.createError(code, message)\<close>, a plain
  \<open>new Error(message)\<close>, or an error handed over by a collaborator or a library
  (transport, file system, certificate manager, ...), identified by its text.
\<close>

datatype error =
    ApiError status_code string
  | JsError string
  | Foreign string

fun error_message :: "error \<Rightarrow> string" where
  "error_message (ApiError c m) = m"
| "error_message (JsError m) = m"
| "error_message (Foreign m) = m"

text \<open>
  The state of a promise: fulfilled with a value, rejected with an error, or still
  pending. A promise that stays \<open>Pending\<close> for ever never settles.
\<close>

datatype 'a settled = Resolved 'a | Rejected error | Pending

text \<open>
  Settling is idempotent: \<open>resolve\<close> and \<open>reject\<close> act on a pending promise
  only.
\<close>

definition resolve_promise :: "'a \<Rightarrow> 'a settled \<Rightarrow> 'a settled" where
  "resolve_promise v p = (case p of Pending \<Rightarrow> Resolved v | _ \<Rightarrow> p)"

definition reject_promise :: "error \<Rightarrow> 'a settled \<Rightarrow> 'a settled" where
  "reject_promise e p = (case p of Pending \<Rightarrow> Rejected e | _ \<Rightarrow> p)"

text \<open>
  Callbacks that the timers arm: the next health-check cycle, the process exit of the
  fatal bootstrap path, the service update of \<open>resetSelf\<close>, and the \<open>resolve\<close>
  of a promise (given by its index in the table of promises).
\<close>

datatype task = PerformHealthCheck | ProcessExit int | UpdateService | ResolvePromise nat

text \<open>
  What the code does to the outside, in the order it does it: a call of a collaborator
  or a library (its qualified name and its arguments, rendered as strings), a log line
  (\<open>Logger.d\<close>, \<open>Logger.e\<close> with a text, \<open>Logger.e\<close> with an error
  object), and an exception thrown inside a callback that nothing catches.
\<close>

datatype effect =
    Call string "string list"
  | LogD string
  | LogE string
  | LogErr error
  | Uncaught error

definition show_bool :: "bool \<Rightarrow> string" where
  "show_bool b = (if b then ''true'' else ''false'')"

text \<open>Module-level constants of \<open>CaptainManager.ts\<close>.\<close>

definition DEBUG_SALT :: string where
  "DEBUG_SALT = ''THIS IS NOT A REAL CERTIFICATE''"

definition MAX_FAIL_ALLOWED :: nat where
  "MAX_FAIL_ALLOWED = 4"

definition HEALTH_CHECK_INTERVAL :: nat where
  "HEALTH_CHECK_INTERVAL = 20000"

definition TIMEOUT_HEALTH_CHECK :: nat where
  "TIMEOUT_HEALTH_CHECK = 15000"

text \<open>
  \<open>CaptainConstants\<close> is imported from another module; the fields that
  \<open>CaptainManager.ts\<close> reads are taken as a parameter.
\<close>

record constants =
  isDebug :: bool
  rootNameSpace :: string
  captainSubDomain :: string
  captainServiceName :: string
  captainNetworkName :: string
  captainSaltSecretKey :: string
  healthCheckEndPoint :: string
  captainConfirmationPath :: string
  captainStaticFilesDir :: string
  nginxDomainSpecificHtmlDir :: string
  nginxPortNumber :: nat
  preCheckForWildCard :: bool
  publishedNameOnDockerHub :: string
  captainRootDirectoryTemp :: string
  captainRootDirectoryGenerated :: string
  letsEncryptEtcPath :: string
  letsEncryptLibPath :: string
  perAppNginxConfigPathBase :: string
  baseNginxConfigPath :: string
  registryPathOnHost :: string
  disableFirewallCommand :: string

text \<open>JavaScript's conversion of a non-negative integer to its decimal string.\<close>

definition digit :: "nat \<Rightarrow> char" where
  "digit d = char_of (48 + d)"

function show_nat :: "nat \<Rightarrow> string" where
  "show_nat n = (if n < 10 then [digit n] else show_nat (n div 10) @ [digit (n mod 10)])"
  by pat_completeness auto
termination
  by (relation "measure id") auto

declare show_nat.simps [simp del]

text \<open>
  Truthiness of an optional string (\<open>undefined\<close> is \<open>None\<close>): \<open>!body\<close> holds for
  \<open>undefined\<close> and for the empty string.
\<close>

definition truthy :: "string option \<Rightarrow> bool" where
  "truthy b = (case b of None \<Rightarrow> False | Some s \<Rightarrow> s \<noteq> [])"

section \<open>The orchestrator object\<close>

text \<open>
  The mutable fields of a \<open>CaptainManager\<close> instance. The collaborators it holds
  (data store, docker client, certificate manager, load balancer) are external and
  appear in the models below through their answers. \<open>oid\<close> is the identity of the
  object: two references are the same object exactly when their \<open>oid\<close>s agree.
\<close>

record manager =
  oid :: nat
  hasForceSsl :: bool
  myNodeId :: "string option"
  inited :: bool
  waitUntilRestarted :: bool
  captainSalt :: string
  consecutiveHealthCheckFailCount :: nat
  healthCheckUuid :: string

text \<open>
  The constructor: \<open>i\<close> is the identity of the new object and \<open>u\<close> the
  identifier \<open>uuid()\<close> returns for \<open>healthCheckUuid\<close>.
\<close>

definition new_manager :: "nat \<Rightarrow> string \<Rightarrow> manager" where
  "new_manager i u = \<lparr>oid = i, hasForceSsl = False, myNodeId = None, inited = False,
     waitUntilRestarted = False, captainSalt = [], consecutiveHealthCheckFailCount = 0,
     healthCheckUuid = u\<rparr>"

definition getCaptainSalt :: "manager \<Rightarrow> error + string" where
  "getCaptainSalt m =
     (if captainSalt m = [] then Inl (JsError ''Captain Salt is not set yet!!'')
      else Inr (captainSalt m))"

section \<open>The singleton accessor and the authenticator cache\<close>

text \<open>
  A credential issuer built by \<open>new Authenticator(captainSalt, namespace)\<close>. The
  class is external; the model keeps the identity of the object and the two arguments
  of its constructor.
\<close>

record authenticator =
  auth_oid :: nat
  auth_salt :: string
  auth_namespace :: string

text \<open>
  The static fields of \<open>CaptainManager\<close>, with the bookkeeping of object
  construction: \<open>allocated\<close> counts the objects built so far and gives the next
  identity, \<open>managersBuilt\<close> counts the runs of the \<open>CaptainManager\<close>
  constructor, and \<open>authenticatorsBuilt\<close> lists the arguments of every run of the
  \<open>Authenticator\<close> constructor.
\<close>

text \<open>
  \<open>authenticatorCache\<close> is a plain object (\<open>{}\<close>), so reading a property of
  it also finds the members it inherits from \<open>Object.prototype\<close>, all of them
  truthy (functions, and the prototype object itself for \<open>__proto__\<close>). A value
  read from the cache is an issuer stored there, or an inherited member (kept by its
  name).
\<close>

datatype cache_value = Issuer authenticator | Inherited string

definition object_prototype_members :: "string list" where
  "object_prototype_members =
     [''constructor'', ''__defineGetter__'', ''__defineSetter__'', ''hasOwnProperty'',
      ''__lookupGetter__'', ''__lookupSetter__'', ''isPrototypeOf'', ''propertyIsEnumerable'',
      ''toString'', ''valueOf'', ''__proto__'', ''toLocaleString'']"

definition empty_object :: "string \<rightharpoonup> cache_value" where
  "empty_object name =
     (if name \<in> set object_prototype_members then Some (Inherited name) else None)"

record statics =
  captainManagerInstance :: "manager option"
  authenticatorCache :: "string \<rightharpoonup> cache_value"
  allocated :: nat
  managersBuilt :: nat
  authenticatorsBuilt :: "(string \<times> string) list"

definition init_statics :: statics where
  "init_statics = \<lparr>captainManagerInstance = None, authenticatorCache = empty_object,
     allocated = 0, managersBuilt = 0, authenticatorsBuilt = []\<rparr>"

text \<open>
  \<open>CaptainManager.get()\<close>. The argument \<open>u\<close> is the identifier that \<open>uuid()\<close>
  returns if the constructor runs.
\<close>

definition get :: "string \<Rightarrow> statics \<Rightarrow> manager \<times> statics" where
  "get u s =
     (case captainManagerInstance s of
        None \<Rightarrow>
          (let m = new_manager (allocated s) u
           in (m, s\<lparr>captainManagerInstance := Some m, allocated := allocated s + 1,
                    managersBuilt := managersBuilt s + 1\<rparr>))
      | Some m \<Rightarrow> (m, s))"

text \<open>
  \<open>CaptainManager.getAuthenticator(namespace)\<close>. The result is an error (a throw),
  or the value of \<open>authenticatorCache[namespace]\<close>, which is \<open>None\<close> for
  \<open>undefined\<close>. Every value the cache can hold is truthy, so the guarded block
  runs exactly when the lookup finds nothing.
\<close>

definition getAuthenticator ::
  "string \<Rightarrow> string \<Rightarrow> statics \<Rightarrow> (error + cache_value option) \<times> statics" where
  "getAuthenticator u namespace s =
     (if namespace = [] then (Inl (ApiError STATUS_ERROR_NOT_AUTHORIZED ''Empty namespace''), s)
      else case authenticatorCache s namespace of
        Some found \<Rightarrow> (Inr (authenticatorCache s namespace), s)
      | None \<Rightarrow>
          (let (m, s1) = get u s
           in case getCaptainSalt m of
                Inl e \<Rightarrow> (Inl e, s1)
              | Inr salt \<Rightarrow>
                  if salt \<noteq> [] then
                    (let a = \<lparr>auth_oid = allocated s1, auth_salt = salt,
                                auth_namespace = namespace\<rparr>;
                         s2 = s1\<lparr>authenticatorCache :=
                                   (authenticatorCache s1)(namespace \<mapsto> Issuer a),
                                 allocated := allocated s1 + 1,
                                 authenticatorsBuilt := authenticatorsBuilt s1 @ [(salt, namespace)]\<rparr>
                     in (Inr (authenticatorCache s2 namespace), s2))
                  else (Inr (authenticatorCache s1 namespace), s1)))"

text \<open>
  What the rest of the process does to the statics: calls of the two accessors, and the
  bootstrap storing the secret it read into the singleton
  (\<open>self.captainSalt = secretContent\<close>, reached only with a non-empty content).
\<close>

datatype static_op =
    CallGet string
  | CallGetAuthenticator string string
  | StoreSalt string

fun run_op :: "statics \<Rightarrow> static_op \<Rightarrow> statics" where
  "run_op s (CallGet u) = snd (get u s)"
| "run_op s (CallGetAuthenticator u namespace) = snd (getAuthenticator u namespace s)"
| "run_op s (StoreSalt secretContent) =
     (case captainManagerInstance s of
        None \<Rightarrow> s
      | Some m \<Rightarrow>
          if secretContent = [] then s
          else s\<lparr>captainManagerInstance := Some (m\<lparr>captainSalt := secretContent\<rparr>)\<rparr>)"

definition run_ops :: "static_op list \<Rightarrow> statics \<Rightarrow> statics" where
  "run_ops ops s = foldl run_op s ops"

text \<open>The salt is available once the singleton exists and holds a non-empty salt.\<close>

definition salt_available :: "statics \<Rightarrow> bool" where
  "salt_available s =
     (case captainManagerInstance s of None \<Rightarrow> False | Some m \<Rightarrow> captainSalt m \<noteq> [])"

definition built_for :: "string \<Rightarrow> statics \<Rightarrow> nat" where
  "built_for namespace s = length (filter (\<lambda>p. snd p = namespace) (authenticatorsBuilt s))"

section \<open>Health monitor\<close>

text \<open>
  The part of the process the health monitor acts on: the orchestrator, the armed
  timers (delay in ms and callback), the status passed to \<open>process.exit\<close> once it was
  called, and the warnings logged.
\<close>

record monitor =
  self :: manager
  timers :: "(nat \<times> task) list"
  exitStatus :: "int option"
  warnings :: "string list"

text \<open>
  What can call back during one cycle, in the order the event loop delivers it: the
  two 15 s timers, the answer of the HTTP request of the self-health probe (error and
  body), and the settlement of the domain verification of the proxy-health probe.
\<close>

datatype signal =
    CaptainTimeout
  | CaptainResponse "error option" "string option"
  | NginxTimeout
  | NginxVerified
  | NginxRejected error

text \<open>
  What one cycle reads from outside: whether a custom domain is set and the root domain
  (data store), the identifier \<open>uuid()\<close> returns when the next cycle is scheduled, and
  the callbacks in their order of arrival.
\<close>

record cycle =
  hasCustomDomain :: bool
  rootDomain :: string
  nextUuid :: string
  signals :: "signal list"

text \<open>
  The locals of one call of \<open>performHealthCheck\<close>: the two \<open>callbackCalled\<close> guards
  and the two slots of \<open>checksPerformed\<close>.
\<close>

record probes =
  captainCallbackCalled :: bool
  nginxCallbackCalled :: bool
  captainHealth :: "bool option"
  nginxHealth :: "bool option"

definition no_probes :: probes where
  "no_probes = \<lparr>captainCallbackCalled = False, nginxCallbackCalled = False,
     captainHealth = None, nginxHealth = None\<rparr>"

definition captainPublicDomain :: "constants \<Rightarrow> cycle \<Rightarrow> string" where
  "captainPublicDomain k c = captainSubDomain k @ ''.'' @ rootDomain c"

definition scheduleNextHealthCheck :: "cycle \<Rightarrow> monitor \<Rightarrow> monitor" where
  "scheduleNextHealthCheck c w =
     w\<lparr>self := (self w)\<lparr>healthCheckUuid := nextUuid c\<rparr>,
       timers := timers w @ [(HEALTH_CHECK_INTERVAL, PerformHealthCheck)]\<rparr>"

definition scheduleIfNecessary :: "constants \<Rightarrow> cycle \<Rightarrow> probes \<Rightarrow> monitor \<Rightarrow> monitor" where
  "scheduleIfNecessary k c pr w =
     (case (captainHealth pr, nginxHealth pr) of
        (Some captainOk, Some nginxOk) \<Rightarrow>
          (let n = consecutiveHealthCheckFailCount (self w);
               w1 = (if \<not> captainOk
                     then w\<lparr>warnings := warnings w @
                            [''Captain health check failed: #'' @ show_nat n @ '' at '' @
                             captainPublicDomain k c]\<rparr>
                     else w);
               w2 = (if \<not> nginxOk
                     then w1\<lparr>warnings := warnings w1 @
                            [''NGINX health check failed: #'' @ show_nat n]\<rparr>
                     else w1);
               hasFailedCheck = (\<not> captainOk \<or> \<not> nginxOk);
               w3 = w2\<lparr>self := (self w2)\<lparr>consecutiveHealthCheckFailCount :=
                            (if hasFailedCheck then n + 1 else 0)\<rparr>\<rparr>;
               w4 = scheduleNextHealthCheck c w3
           in if consecutiveHealthCheckFailCount (self w4) > MAX_FAIL_ALLOWED
              then w4\<lparr>exitStatus := Some 1\<rparr>
              else w4)
      | _ \<Rightarrow> w)"

text \<open>
  One callback. Nothing runs once the process has exited. Each probe reports through
  its guard, so only its first callback writes the slot and calls
  \<open>scheduleIfNecessary\<close>.
\<close>

definition report_captain :: "constants \<Rightarrow> cycle \<Rightarrow> bool \<Rightarrow> probes \<times> monitor \<Rightarrow> probes \<times> monitor" where
  "report_captain k c success pw =
     (let pr = (fst pw)\<lparr>captainCallbackCalled := True, captainHealth := Some success\<rparr>
      in (pr, scheduleIfNecessary k c pr (snd pw)))"

definition report_nginx :: "constants \<Rightarrow> cycle \<Rightarrow> bool \<Rightarrow> probes \<times> monitor \<Rightarrow> probes \<times> monitor" where
  "report_nginx k c success pw =
     (let pr = (fst pw)\<lparr>nginxCallbackCalled := True, nginxHealth := Some success\<rparr>
      in (pr, scheduleIfNecessary k c pr (snd pw)))"

fun on_signal :: "constants \<Rightarrow> cycle \<Rightarrow> probes \<times> monitor \<Rightarrow> signal \<Rightarrow> probes \<times> monitor" where
  "on_signal k c pw CaptainTimeout =
     (if exitStatus (snd pw) \<noteq> None \<or> captainCallbackCalled (fst pw) then pw
      else report_captain k c False pw)"
| "on_signal k c pw (CaptainResponse err body) =
     (if exitStatus (snd pw) \<noteq> None \<or> captainCallbackCalled (fst pw) then pw
      else if err \<noteq> None \<or> \<not> truthy body \<or> body \<noteq> Some (healthCheckUuid (self (snd pw)))
      then report_captain k c False pw
      else report_captain k c True pw)"
| "on_signal k c pw NginxTimeout =
     (if exitStatus (snd pw) \<noteq> None \<or> nginxCallbackCalled (fst pw) then pw
      else report_nginx k c False pw)"
| "on_signal k c pw NginxVerified =
     (if exitStatus (snd pw) \<noteq> None \<or> nginxCallbackCalled (fst pw) then pw
      else report_nginx k c True pw)"
| "on_signal k c pw (NginxRejected e) =
     (if exitStatus (snd pw) \<noteq> None \<or> nginxCallbackCalled (fst pw) then pw
      else report_nginx k c False pw)"

text \<open>
  \<open>performHealthCheck\<close>: under debug configuration or without a custom domain the
  cycle is skipped and the next one scheduled; otherwise both probes are started and
  their callbacks handled as they arrive.
\<close>

definition performHealthCheck :: "constants \<Rightarrow> cycle \<Rightarrow> monitor \<Rightarrow> monitor" where
  "performHealthCheck k c w =
     (if isDebug k \<or> \<not> hasCustomDomain c then scheduleNextHealthCheck c w
      else snd (foldl (on_signal k c) (no_probes, w) (signals c)))"

text \<open>
  The unending loop, on a finite list of cycles: a cycle starts when the process is
  alive and the timer of the previous cycle is armed; the timer is consumed when it
  fires.
\<close>

definition start_cycle :: "monitor \<Rightarrow> monitor" where
  "start_cycle w = w\<lparr>timers := remove1 (HEALTH_CHECK_INTERVAL, PerformHealthCheck) (timers w)\<rparr>"

fun run_monitor :: "constants \<Rightarrow> cycle list \<Rightarrow> monitor \<Rightarrow> monitor" where
  "run_monitor k [] w = w"
| "run_monitor k (c # cs) w =
     (if exitStatus w = None \<and> (HEALTH_CHECK_INTERVAL, PerformHealthCheck) \<in> set (timers w)
      then run_monitor k cs (performHealthCheck k c (start_cycle w))
      else w)"

text \<open>
  The verdict of a cycle, read off the slots once all its callbacks were handled: the
  cycle is decided when both slots are set; it failed when it is decided and a slot
  holds a failure, and passed when both hold a success.
\<close>

definition slots :: "constants \<Rightarrow> cycle \<Rightarrow> monitor \<Rightarrow> probes" where
  "slots k c w = fst (foldl (on_signal k c) (no_probes, w) (signals c))"

definition skipped :: "constants \<Rightarrow> cycle \<Rightarrow> bool" where
  "skipped k c = (isDebug k \<or> \<not> hasCustomDomain c)"

definition cycle_failed :: "constants \<Rightarrow> cycle \<Rightarrow> monitor \<Rightarrow> bool" where
  "cycle_failed k c w =
     (\<not> skipped k c \<and>
      (case (captainHealth (slots k c w), nginxHealth (slots k c w)) of
         (Some a, Some b) \<Rightarrow> \<not> a \<or> \<not> b
       | _ \<Rightarrow> False))"

definition cycle_passed :: "constants \<Rightarrow> cycle \<Rightarrow> monitor \<Rightarrow> bool" where
  "cycle_passed k c w =
     (\<not> skipped k c \<and>
      captainHealth (slots k c w) = Some True \<and> nginxHealth (slots k c w) = Some True)"

section \<open>Promise chains\<close>

text \<open>
  The state a promise chain runs in: the static fields of the class (with the
  singleton), the effects so far, the table of the promises built by
  \<open>new Promise\<close> whose settling is left to a timer, the armed timers (delay in ms
  and callback), and the status passed to \<open>process.exit\<close> once it was called.
\<close>

record world =
  shared :: statics
  trace :: "effect list"
  promises :: "unit settled list"
  armed :: "(nat \<times> task) list"
  exitCode :: "int option"

definition init_world :: world where
  "init_world = \<lparr>shared = init_statics, trace = [], promises = [], armed = [], exitCode = None\<rparr>"

text \<open>
  A promise-returning computation yields, with the state it leaves, how its promise
  ends up: fulfilled, rejected, or never settled (\<open>Pending\<close>).
\<close>

type_synonym 'a prom = "world \<Rightarrow> 'a settled \<times> world"

definition resolved :: "'a \<Rightarrow> 'a prom" where
  "resolved v w = (Resolved v, w)"

definition throw :: "error \<Rightarrow> 'a prom" where
  "throw e w = (Rejected e, w)"

definition emit :: "effect list \<Rightarrow> world \<Rightarrow> world" where
  "emit es w = w\<lparr>trace := trace w @ es\<rparr>"

text \<open>
  \<open>p.then(f)\<close>: the handler runs on the value once \<open>p\<close> is fulfilled, and the new
  promise follows what the handler returns or throws; a rejection passes the handler
  by; a promise that never settles never runs it.
\<close>

definition then_p :: "'a prom \<Rightarrow> ('a \<Rightarrow> 'b prom) \<Rightarrow> 'b prom" where
  "then_p p f w =
     (case p w of
        (Resolved v, w1) \<Rightarrow> f v w1
      | (Rejected e, w1) \<Rightarrow> (Rejected e, w1)
      | (Pending, w1) \<Rightarrow> (Pending, w1))"

text \<open>\<open>p.catch(h)\<close>: the handler runs on the error once \<open>p\<close> is rejected.\<close>

definition catch_p :: "'a prom \<Rightarrow> (error \<Rightarrow> 'a prom) \<Rightarrow> 'a prom" where
  "catch_p p h w =
     (case p w of
        (Resolved v, w1) \<Rightarrow> (Resolved v, w1)
      | (Rejected e, w1) \<Rightarrow> h e w1
      | (Pending, w1) \<Rightarrow> (Pending, w1))"

text \<open>
  The values the handlers of the chains pass on. \<open>IRegistryInfo\<close> is imported; the
  two fields read here are kept.
\<close>

datatype registry_type = LOCAL_REG | REMOTE_REG

record registry =
  registryType :: registry_type
  registryPassword :: string

datatype val = Undefined | Bool bool | Str string | Registries "registry list"

fun is_true :: "val \<Rightarrow> bool" where
  "is_true Undefined = False"
| "is_true (Bool b) = b"
| "is_true (Str s) = (s \<noteq> [])"
| "is_true (Registries rs) = True"

text \<open>\<open>p.then(f1).then(f2)...\<close>, the handlers in the order they are attached.\<close>

definition chain :: "val prom \<Rightarrow> (val \<Rightarrow> val prom) list \<Rightarrow> val prom" where
  "chain p fs = foldl then_p p fs"

fun map_settled :: "('a \<Rightarrow> 'b) \<Rightarrow> 'a settled \<Rightarrow> 'b settled" where
  "map_settled f (Resolved v) = Resolved (f v)"
| "map_settled f (Rejected e) = Rejected e"
| "map_settled f Pending = Pending"

text \<open>
  A call of a collaborator that returns a promise: the call is recorded, and the
  promise ends up as the collaborator decides.
\<close>

definition call :: "string \<Rightarrow> string list \<Rightarrow> 'a settled \<Rightarrow> 'a prom" where
  "call name args outcome w = (outcome, emit [Call name args] w)"

subsection \<open>The environment\<close>

text \<open>The collaborators and libraries, as far as their answers are read.\<close>

datatype json =
    JNull
  | JBool bool
  | JNum int
  | JStr string
  | JArr "json list"
  | JObj "(string \<times> json) list"

record env =
  cfg :: constants
  answer :: "string \<Rightarrow> string list \<Rightarrow> unit settled"
  uuid :: string
  request :: "string \<Rightarrow> (error option \<times> string option) option"
  getRootDomain :: string
  getCaptainPublicRandomKey :: string
  getHasRootSsl :: "bool settled"
  parseJson :: "string \<Rightarrow> json option"
  toNumber :: "json \<Rightarrow> int option"

text \<open>
  The fields of \<open>env\<close>: \<open>answer\<close> is how the promise of a collaborator's call ends up
  when only its settling matters (by qualified name and arguments); \<open>uuid\<close> is what
  \<open>uuid()\<close> returns; \<open>request\<close> gives the arguments \<open>(error, body)\<close> with which the
  HTTP library calls back for a URL, or \<open>None\<close> if it never calls back;
  \<open>parseJson\<close> is \<open>JSON.parse\<close> (\<open>None\<close> when it throws) and \<open>toNumber\<close> is
  JavaScript's conversion to a number (\<open>None\<close> for \<open>NaN\<close>); the others are
  getters of the data store and the load balancer.
\<close>

definition call_unit :: "env \<Rightarrow> string \<Rightarrow> string list \<Rightarrow> val prom" where
  "call_unit env name args = call name args (map_settled (\<lambda>u. Undefined) (answer env name args))"

subsection \<open>Timers and the promises they settle\<close>

text \<open>
  What a timer's callback does when it fires. Nothing runs once the process has
  exited. The promise \<open>dockerApi.updateService\<close> returns is dropped
  (\<open>promiseToIgnore\<close>).
\<close>

fun fire :: "env \<Rightarrow> world \<Rightarrow> task \<Rightarrow> world" where
  "fire env w UpdateService =
     (if exitCode w \<noteq> None then w
      else emit [Call ''dockerApi.updateService'' [captainServiceName (cfg env)]] w)"
| "fire env w (ResolvePromise p) =
     (if exitCode w \<noteq> None \<or> \<not> p < length (promises w) then w
      else w\<lparr>promises := (promises w)[p := resolve_promise () (promises w ! p)]\<rparr>)"
| "fire env w (ProcessExit c) =
     (if exitCode w \<noteq> None then w else w\<lparr>exitCode := Some c\<rparr>)"
| "fire env w PerformHealthCheck =
     (if exitCode w \<noteq> None then w else emit [Call ''self.performHealthCheck'' []] w)"

text \<open>The \<open>i\<close>-th armed timer fires and is disarmed.\<close>

definition fire_timer :: "env \<Rightarrow> nat \<Rightarrow> world \<Rightarrow> world" where
  "fire_timer env i w =
     (if i < length (armed w)
      then fire env (w\<lparr>armed := take i (armed w) @ drop (Suc i) (armed w)\<rparr>) (snd (armed w ! i))
      else w)"

text \<open>
  \<open>resetSelf\<close>: the executor of the new promise arms the 2 s timer and uses neither
  \<open>resolve\<close> nor \<open>reject\<close>. The result is the index of the promise returned.
\<close>

definition resetSelf :: "world \<Rightarrow> nat \<times> world" where
  "resetSelf w =
     (let w1 = emit [LogD ''Captain is resetting itself!''] w;
          p = length (promises w1)
      in (p, w1\<lparr>promises := promises w1 @ [Pending],
                armed := armed w1 @ [(2000, UpdateService)]\<rparr>))"

text \<open>
  The settle delay of the domain verification:
  \<open>new Promise(resolve => setTimeout(() => resolve(), ms))\<close>.
\<close>

definition settle_delay :: "nat \<Rightarrow> world \<Rightarrow> nat \<times> world" where
  "settle_delay ms w =
     (let p = length (promises w)
      in (p, w\<lparr>promises := promises w @ [Pending],
               armed := armed w @ [(ms, ResolvePromise p)]\<rparr>))"

text \<open>
  What goes on in the process after a point in time: armed timers fire in any order,
  and other code builds further delay promises or calls \<open>resetSelf\<close> again.
\<close>

datatype loop_event = Fire nat | NewDelay nat | ResetAgain

fun on_loop_event :: "env \<Rightarrow> world \<Rightarrow> loop_event \<Rightarrow> world" where
  "on_loop_event env w (Fire i) = fire_timer env i w"
| "on_loop_event env w (NewDelay ms) = snd (settle_delay ms w)"
| "on_loop_event env w ResetAgain = snd (resetSelf w)"

definition run_loop :: "env \<Rightarrow> loop_event list \<Rightarrow> world \<Rightarrow> world" where
  "run_loop env evs w = foldl (on_loop_event env) w evs"

text \<open>
  Every \<open>resolve\<close> a timer holds belongs to a promise that exists.
\<close>

definition timers_ok :: "world \<Rightarrow> bool" where
  "timers_ok w = list_all (\<lambda>t. case snd t of ResolvePromise p \<Rightarrow> p < length (promises w) | _ \<Rightarrow> True) (armed w)"

text \<open>
  A chain that continues with a promise built by \<open>new Promise\<close>: the timers its
  executor armed fire, and the chain goes on as the promise stands after that.
\<close>

definition awaited :: "env \<Rightarrow> (world \<Rightarrow> nat \<times> world) \<Rightarrow> val prom" where
  "awaited env build w =
     (let (p, w1) = build w;
          n = length (armed w);
          w2 = foldl (fire env) (w1\<lparr>armed := take n (armed w1)\<rparr>) (map snd (drop n (armed w1)))
      in (map_settled (\<lambda>u. Undefined) (promises w2 ! p), w2))"

section \<open>Domain verification\<close>

definition show_error :: "error option \<Rightarrow> string" where
  "show_error e = (case e of None \<Rightarrow> ''null'' | Some x \<Rightarrow> ''Error: '' @ error_message x)"

definition show_body :: "string option \<Rightarrow> string" where
  "show_body b = (case b of None \<Rightarrow> ''undefined'' | Some s \<Rightarrow> s)"

text \<open>
  The last step of \<open>verifyCaptainOwnsDomainOrThrow\<close>: one HTTP request, and the
  comparison of the body with the token.
\<close>

definition poll_confirmation :: "env \<Rightarrow> string \<Rightarrow> string \<Rightarrow> string \<Rightarrow> val prom" where
  "poll_confirmation env domainName url randomUuid w =
     (let w1 = emit [Call ''request'' [url]] w
      in case request env url of
           None \<Rightarrow> (Pending, w1)
         | Some (err, body) \<Rightarrow>
             if err \<noteq> None \<or> \<not> truthy body \<or> body \<noteq> Some randomUuid
             then (Rejected (ApiError VERIFICATION_FAILED ''Verification Failed.''),
                   emit [LogE (''Verification Failed for '' @ domainName),
                         LogE (''Error        '' @ show_error err),
                         LogE (''body         '' @ show_body body),
                         LogE (''randomUuid   '' @ randomUuid)] w1)
             else (Resolved Undefined, w1))"

definition confirmationPath :: "env \<Rightarrow> string option \<Rightarrow> string" where
  "confirmationPath env identifierSuffix =
     captainConfirmationPath (cfg env) @
     (case identifierSuffix of None \<Rightarrow> [] | Some s \<Rightarrow> (if s \<noteq> [] then s else []))"

definition confirmationFile :: "env \<Rightarrow> string \<Rightarrow> string option \<Rightarrow> string" where
  "confirmationFile env domainName identifierSuffix =
     captainStaticFilesDir (cfg env) @ nginxDomainSpecificHtmlDir (cfg env) @ ''/'' @
     domainName @ confirmationPath env identifierSuffix"

definition confirmationUrl :: "env \<Rightarrow> string \<Rightarrow> string option \<Rightarrow> string" where
  "confirmationUrl env domainName identifierSuffix =
     ''http://'' @ domainName @ '':'' @ show_nat (nginxPortNumber (cfg env)) @
     confirmationPath env identifierSuffix"

definition verifyCaptainOwnsDomainOrThrow :: "env \<Rightarrow> string \<Rightarrow> string option \<Rightarrow> val prom" where
  "verifyCaptainOwnsDomainOrThrow env domainName identifierSuffix =
     (let randomUuid = uuid env
      in chain (resolved Undefined)
           [\<lambda>v. call_unit env ''certbotManager.domainValidOrThrow'' [domainName],
            \<lambda>v. call_unit env ''fs.outputFile''
                   [confirmationFile env domainName identifierSuffix, randomUuid],
            \<lambda>v. awaited env (settle_delay 1000),
            \<lambda>v. poll_confirmation env domainName
                   (confirmationUrl env domainName identifierSuffix) randomUuid])"

text \<open>Whether an effect is a call of a given name.\<close>

fun is_call :: "string \<Rightarrow> effect \<Rightarrow> bool" where
  "is_call name (Call n args) = (n = name)"
| "is_call name e = False"

section \<open>Certificates and the root domain\<close>

definition enableSsl :: "env \<Rightarrow> string \<Rightarrow> val prom" where
  "enableSsl env emailAddress =
     chain (resolved Undefined)
       [\<lambda>v. call_unit env ''certbotManager.ensureRegistered'' [emailAddress],
        \<lambda>v. call_unit env ''certbotManager.enableSsl''
               [captainSubDomain (cfg env) @ ''.'' @ getRootDomain env],
        \<lambda>v. call_unit env ''dataStore.setUserEmailAddress'' [emailAddress],
        \<lambda>v. call_unit env ''dataStore.setHasRootSsl'' [show_bool True],
        \<lambda>v. call_unit env ''loadBalancerManager.rePopulateNginxConfigFile'' [],
        \<lambda>v. call_unit env ''loadBalancerManager.sendReloadSignal'' []]"

text \<open>The six calls of \<open>enableSsl\<close>, in the order of the source.\<close>

definition enableSsl_calls :: "env \<Rightarrow> string \<Rightarrow> (string \<times> string list) list" where
  "enableSsl_calls env emailAddress =
     [(''certbotManager.ensureRegistered'', [emailAddress]),
      (''certbotManager.enableSsl'', [captainSubDomain (cfg env) @ ''.'' @ getRootDomain env]),
      (''dataStore.setUserEmailAddress'', [emailAddress]),
      (''dataStore.setHasRootSsl'', [show_bool True]),
      (''loadBalancerManager.rePopulateNginxConfigFile'', []),
      (''loadBalancerManager.sendReloadSignal'', [])]"

text \<open>
  Calls made one after the other, each waiting for the promise of the one before:
  the calls that are made, and how the whole ends up.
\<close>

fun calls_made :: "env \<Rightarrow> (string \<times> string list) list \<Rightarrow> (string \<times> string list) list" where
  "calls_made env [] = []"
| "calls_made env (c # cs) =
     c # (case answer env (fst c) (snd c) of Resolved u \<Rightarrow> calls_made env cs | _ \<Rightarrow> [])"

fun calls_outcome :: "env \<Rightarrow> (string \<times> string list) list \<Rightarrow> val settled" where
  "calls_outcome env [] = Resolved Undefined"
| "calls_outcome env (c # cs) =
     (case answer env (fst c) (snd c) of
        Resolved u \<Rightarrow> calls_outcome env cs
      | Rejected e \<Rightarrow> Rejected e
      | Pending \<Rightarrow> Pending)"

definition as_call :: "string \<times> string list \<Rightarrow> effect" where
  "as_call c = Call (fst c) (snd c)"





section \<open>Version tags\<close>

text \<open>
  Reading the parsed body as JavaScript does: truthiness, a property of an object
  (\<open>None\<close> for \<open>undefined\<close>), the number \<open>results.length\<close> stands for in
  \<open>idx < results.length\<close> (\<open>None\<close> for \<open>undefined\<close> or \<open>NaN\<close>), and
  \<open>results[idx]\<close>.
\<close>

fun js_truthy :: "json \<Rightarrow> bool" where
  "js_truthy JNull = False"
| "js_truthy (JBool b) = b"
| "js_truthy (JNum n) = (n \<noteq> 0)"
| "js_truthy (JStr s) = (s \<noteq> [])"
| "js_truthy (JArr xs) = True"
| "js_truthy (JObj fs) = True"

fun get_prop :: "string \<Rightarrow> json \<Rightarrow> json option" where
  "get_prop name (JObj fs) = map_of fs name"
| "get_prop name v = None"

fun as_number :: "env \<Rightarrow> json \<Rightarrow> int option" where
  "as_number env (JNum n) = Some n"
| "as_number env (JBool b) = Some (if b then 1 else 0)"
| "as_number env JNull = Some 0"
| "as_number env v = toNumber env v"

fun js_length :: "env \<Rightarrow> json \<Rightarrow> int option" where
  "js_length env (JArr xs) = Some (int (length xs))"
| "js_length env (JStr s) = Some (int (length s))"
| "js_length env (JObj fs) =
     (case map_of fs ''length'' of None \<Rightarrow> None | Some v \<Rightarrow> as_number env v)"
| "js_length env v = None"

fun js_index :: "json \<Rightarrow> nat \<Rightarrow> json option" where
  "js_index (JArr xs) i = (if i < length xs then Some (xs ! i) else None)"
| "js_index (JStr s) i = (if i < length s then Some (JStr [s ! i]) else None)"
| "js_index (JObj fs) i = map_of fs (show_nat i)"
| "js_index v i = None"

text \<open>
  The loop \<open>tags.push(results[idx].name)\<close> over the indices: reading \<open>name\<close> off
  \<open>undefined\<close> or \<open>null\<close> throws.
\<close>

fun collect_tags :: "json \<Rightarrow> nat list \<Rightarrow> json option list \<Rightarrow> error + json option list" where
  "collect_tags results [] tags = Inr tags"
| "collect_tags results (idx # rest) tags =
     (case js_index results idx of
        None \<Rightarrow> Inl (JsError ''TypeError: Cannot read property name of undefined'')
      | Some JNull \<Rightarrow> Inl (JsError ''TypeError: Cannot read property name of null'')
      | Some element \<Rightarrow> collect_tags results rest (tags @ [get_prop ''name'' element]))"

definition tagsUrl :: "env \<Rightarrow> string" where
  "tagsUrl env =
     ''https://hub.docker.com/v2/repositories/'' @ publishedNameOnDockerHub (cfg env) @ ''/tags''"

definition no_version_list :: error where
  "no_version_list = JsError ''Received empty body or no result for version list on docker hub.''"

text \<open>
  \<open>getCaptainImageTags\<close>. The request is sent first; everything else happens in its
  callback. An exception thrown there (by \<open>JSON.parse\<close> or by the loop) is caught by
  nobody, and the promise stays pending.
\<close>

definition read_results :: "env \<Rightarrow> json \<Rightarrow> world \<Rightarrow> json option list settled \<times> world" where
  "read_results env results w1 =
     (let n = (case js_length env results of None \<Rightarrow> 0 | Some l \<Rightarrow> nat l)
      in case collect_tags results [0 ..< n] [] of
           Inl e \<Rightarrow> (Pending, emit [Uncaught e] w1)
         | Inr tags \<Rightarrow> (Resolved tags, w1))"

definition read_body :: "env \<Rightarrow> string \<Rightarrow> world \<Rightarrow> json option list settled \<times> world" where
  "read_body env body w1 =
     (case parseJson env body of
        None \<Rightarrow> (Pending, emit [Uncaught (JsError ''SyntaxError'')] w1)
      | Some JNull \<Rightarrow>
          (Pending, emit [Uncaught (JsError ''TypeError: Cannot read property results of null'')] w1)
      | Some parsed \<Rightarrow>
          (case get_prop ''results'' parsed of
             None \<Rightarrow> (Rejected no_version_list, w1)
           | Some results \<Rightarrow>
               (if \<not> js_truthy results then (Rejected no_version_list, w1)
                else read_results env results w1)))"

definition getCaptainImageTags :: "env \<Rightarrow> json option list prom" where
  "getCaptainImageTags env w =
     (let w1 = emit [Call ''request'' [tagsUrl env]] w
      in case request env (tagsUrl env) of
           None \<Rightarrow> (Pending, w1)
         | Some (err, body) \<Rightarrow>
             (if isDebug (cfg env) then (Resolved [Some (JStr ''v0.0.1'')], w1)
              else (case err of
                      Some e \<Rightarrow> (Rejected e, w1)
                    | None \<Rightarrow>
                        (case body of
                           None \<Rightarrow> (Rejected no_version_list, w1)
                         | Some b \<Rightarrow>
                             (if b = [] then (Rejected no_version_list, w1)
                              else read_body env b w1)))))"

section \<open>Bootstrap\<close>

text \<open>
  The answers \<open>initialize\<close> reads beyond those of \<open>env\<close>: the persisted force-SSL
  flag, the node of the service and whether it is a manager, whether the secret had
  been attached to the service before, the secret file (existence and content), the
  namespace of the data store, whether the migration was performed, and the registries.
\<close>

record boot_env =
  base :: env
  getForceSsl :: "bool settled"
  getNodeIdByServiceName :: "string settled"
  isNodeManager :: "string \<Rightarrow> bool settled"
  ensureSecretOnService :: "bool settled"
  pathExistsSync :: "string \<Rightarrow> bool"
  readFileSync :: "string \<Rightarrow> error + string"
  getNameSpace :: string
  migrateIfNeeded :: "bool settled"
  getAllRegistries :: "registry list settled"

text \<open>
  The receiver of \<open>initialize\<close> is the singleton (the method is reached through
  \<open>CaptainManager.get()\<close>), so \<open>self\<close> is read and written through the static
  field.
\<close>

definition read_self :: "boot_env \<Rightarrow> world \<Rightarrow> manager" where
  "read_self be w = fst (get (uuid (base be)) (shared w))"

definition write_self :: "boot_env \<Rightarrow> (manager \<Rightarrow> manager) \<Rightarrow> world \<Rightarrow> world" where
  "write_self be f w =
     w\<lparr>shared := (snd (get (uuid (base be)) (shared w)))
                    \<lparr>captainManagerInstance := Some (f (read_self be w))\<rparr>\<rparr>"

fun str_of :: "val \<Rightarrow> string" where
  "str_of (Str s) = s"
| "str_of v = []"

fun registries_of :: "val \<Rightarrow> registry list" where
  "registries_of (Registries rs) = rs"
| "registries_of v = []"

definition node_id :: "boot_env \<Rightarrow> world \<Rightarrow> string" where
  "node_id be w = (case myNodeId (read_self be w) of None \<Rightarrow> [] | Some n \<Rightarrow> n)"

definition refreshForceSslState :: "boot_env \<Rightarrow> val prom" where
  "refreshForceSslState be =
     chain (resolved Undefined)
       [\<lambda>v. call ''dataStore.getForceSsl'' [] (map_settled Bool (getForceSsl be)),
        \<lambda>hasForceSsl w.
           (Resolved Undefined, write_self be (\<lambda>m. m\<lparr>hasForceSsl := is_true hasForceSsl\<rparr>) w)]"

text \<open>The handlers of the chain of \<open>initialize\<close>, in the order they are attached.\<close>

definition then_getNodeId :: "boot_env \<Rightarrow> val \<Rightarrow> val prom" where
  "then_getNodeId be v =
     call ''dockerApi.getNodeIdByServiceName'' [captainServiceName (cfg (base be)), show_nat 0]
       (map_settled Str (getNodeIdByServiceName be))"

definition then_isNodeManager :: "boot_env \<Rightarrow> val \<Rightarrow> val prom" where
  "then_isNodeManager be nodeId w =
     call ''dockerApi.isNodeManager'' [str_of nodeId]
       (map_settled Bool (isNodeManager be (str_of nodeId)))
       (write_self be (\<lambda>m. m\<lparr>myNodeId := Some (str_of nodeId)\<rparr>) w)"

definition then_requireManager :: "boot_env \<Rightarrow> val \<Rightarrow> val prom" where
  "then_requireManager be isManager =
     (if \<not> is_true isManager then throw (JsError ''Captain should only run on a manager node'')
      else resolved Undefined)"

definition then_emptyTemp :: "boot_env \<Rightarrow> val \<Rightarrow> val prom" where
  "then_emptyTemp be v w =
     call_unit (base be) ''fs.emptyDir'' [captainRootDirectoryTemp (cfg (base be))]
       (emit [LogD ''Emptying generated and temp folders.''] w)"

definition then_emptyGenerated :: "boot_env \<Rightarrow> val \<Rightarrow> val prom" where
  "then_emptyGenerated be v =
     call_unit (base be) ''fs.emptyDir'' [captainRootDirectoryGenerated (cfg (base be))]"

definition then_ensureLetsEncryptEtc :: "boot_env \<Rightarrow> val \<Rightarrow> val prom" where
  "then_ensureLetsEncryptEtc be v w =
     call_unit (base be) ''fs.ensureDir'' [letsEncryptEtcPath (cfg (base be))]
       (emit [LogD ''Ensuring directories are available on host. Started.''] w)"

definition then_ensureLetsEncryptLib :: "boot_env \<Rightarrow> val \<Rightarrow> val prom" where
  "then_ensureLetsEncryptLib be v =
     call_unit (base be) ''fs.ensureDir'' [letsEncryptLibPath (cfg (base be))]"

definition then_ensureStaticFiles :: "boot_env \<Rightarrow> val \<Rightarrow> val prom" where
  "then_ensureStaticFiles be v =
     call_unit (base be) ''fs.ensureDir'' [captainStaticFilesDir (cfg (base be))]"

definition then_ensurePerAppNginx :: "boot_env \<Rightarrow> val \<Rightarrow> val prom" where
  "then_ensurePerAppNginx be v =
     call_unit (base be) ''fs.ensureDir'' [perAppNginxConfigPathBase (cfg (base be))]"

definition then_ensureBaseNginx :: "boot_env \<Rightarrow> val \<Rightarrow> val prom" where
  "then_ensureBaseNginx be v =
     call_unit (base be) ''fs.ensureFile'' [baseNginxConfigPath (cfg (base be))]"

definition then_ensureRegistryPath :: "boot_env \<Rightarrow> val \<Rightarrow> val prom" where
  "then_ensureRegistryPath be v =
     call_unit (base be) ''fs.ensureDir'' [registryPathOnHost (cfg (base be))]"

definition then_ensureOverlayNetwork :: "boot_env \<Rightarrow> val \<Rightarrow> val prom" where
  "then_ensureOverlayNetwork be v =
     call_unit (base be) ''dockerApi.ensureOverlayNetwork'' [captainNetworkName (cfg (base be))]"

definition then_ensureServiceConnected :: "boot_env \<Rightarrow> val \<Rightarrow> val prom" where
  "then_ensureServiceConnected be v w =
     call_unit (base be) ''dockerApi.ensureServiceConnectedToNetwork''
       [captainServiceName (cfg (base be)), captainNetworkName (cfg (base be))]
       (emit [LogD ''Ensuring directories are available on host. Finished.''] w)"

definition then_ensureSecret :: "boot_env \<Rightarrow> val \<Rightarrow> val prom" where
  "then_ensureSecret be v =
     (let valueIfNotExist = (if isDebug (cfg (base be)) then DEBUG_SALT else uuid (base be))
      in call_unit (base be) ''dockerApi.ensureSecret''
           [captainSaltSecretKey (cfg (base be)), valueIfNotExist])"

definition then_ensureSecretOnService :: "boot_env \<Rightarrow> val \<Rightarrow> val prom" where
  "then_ensureSecretOnService be v =
     call ''dockerApi.ensureSecretOnService''
       [captainServiceName (cfg (base be)), captainSaltSecretKey (cfg (base be))]
       (map_settled Bool (ensureSecretOnService be))"

text \<open>
  The halt after the secret was created: a new promise whose executor only logs, and
  uses neither \<open>resolve\<close> nor \<open>reject\<close>.
\<close>

definition halt_here :: "world \<Rightarrow> nat \<times> world" where
  "halt_here w =
     (let w1 = emit [LogD (''I am halting here. I expect to get restarted in a few seconds '' @
                          ''due to a secret (captain salt) being updated.'')] w
      in (length (promises w1), w1\<lparr>promises := promises w1 @ [Pending]\<rparr>))"

definition then_haltIfSecretNew :: "boot_env \<Rightarrow> val \<Rightarrow> val prom" where
  "then_haltIfSecretNew be secretHadExistedBefore =
     (if \<not> is_true secretHadExistedBefore then awaited (base be) halt_here
      else resolved Undefined)"

definition then_readSecret :: "boot_env \<Rightarrow> val \<Rightarrow> val prom" where
  "then_readSecret be v w =
     (let secretFileName = ''/run/secrets/'' @ captainSaltSecretKey (cfg (base be));
          w1 = emit [Call ''fs.pathExistsSync'' [secretFileName]] w
      in if \<not> pathExistsSync be secretFileName
         then throw (JsError (''Secret is attached according to Docker. But file cannot be found. ''
                              @ secretFileName)) w1
         else (let w2 = emit [Call ''fs.readFileSync'' [secretFileName]] w1
               in case readFileSync be secretFileName of
                    Inl e \<Rightarrow> throw e w2
                  | Inr secretContent \<Rightarrow>
                      (if secretContent = [] then throw (JsError ''Salt secret content is empty!'') w2
                       else (Resolved (Bool True),
                             write_self be (\<lambda>m. m\<lparr>captainSalt := secretContent\<rparr>) w2))))"

definition then_setEncryptionSalt :: "boot_env \<Rightarrow> val \<Rightarrow> val prom" where
  "then_setEncryptionSalt be v w =
     (case getCaptainSalt (read_self be w) of
        Inl e \<Rightarrow> throw e (emit [LogE ''Captain Salt is not set yet!!''] w)
      | Inr salt \<Rightarrow> call_unit (base be) ''dataStore.setEncryptionSalt'' [salt] w)"

definition then_initLoadBalancer :: "boot_env \<Rightarrow> val \<Rightarrow> val prom" where
  "then_initLoadBalancer be v w =
     call_unit (base be) ''loadBalancerManager.init'' [node_id be w] w"

text \<open>
  The migration step: the authenticator of the data store's namespace is fetched first
  (and may throw); a performed migration is followed by \<open>resetSelf\<close>, whose promise
  the chain then waits for.
\<close>

definition then_migrate :: "boot_env \<Rightarrow> val \<Rightarrow> val prom" where
  "then_migrate be v w =
     (case getAuthenticator (uuid (base be)) (getNameSpace be) (shared w) of
        (Inl e, s1) \<Rightarrow> throw e (w\<lparr>shared := s1\<rparr>)
      | (Inr a, s1) \<Rightarrow>
          then_p (call ''migrateCaptainDuckDuck.migrateIfNeeded'' []
                    (map_settled Bool (migrateIfNeeded be)))
            (\<lambda>migrationPerformed.
               if is_true migrationPerformed then awaited (base be) resetSelf
               else resolved Undefined)
            (w\<lparr>shared := s1\<rparr>))"

definition then_initCertbot :: "boot_env \<Rightarrow> val \<Rightarrow> val prom" where
  "then_initCertbot be v w = call_unit (base be) ''certbotManager.init'' [node_id be w] w"

definition then_getAllRegistries :: "boot_env \<Rightarrow> val \<Rightarrow> val prom" where
  "then_getAllRegistries be v =
     call ''dataStore.getAllRegistries'' [] (map_settled Registries (getAllRegistries be))"

text \<open>The loop keeps the last registry of type \<open>LOCAL_REG\<close>.\<close>

definition then_ensureRegistry :: "boot_env \<Rightarrow> val \<Rightarrow> val prom" where
  "then_ensureRegistry be registries w =
     (case find (\<lambda>r. registryType r = LOCAL_REG) (rev (registries_of registries)) of
        Some localRegistry \<Rightarrow>
          call_unit (base be) ''dockerRegistry.ensureDockerRegistryRunningOnThisNode''
            [registryPassword localRegistry]
            (emit [LogD ''Ensuring Docker Registry is running...''] w)
      | None \<Rightarrow> resolved (Bool True) w)"

definition then_markReady :: "boot_env \<Rightarrow> val \<Rightarrow> val prom" where
  "then_markReady be v w =
     (Resolved Undefined,
      emit [Call ''self.performHealthCheck'' [],
            LogD ''**** Captain is initialized and ready to serve you! ****'']
        (write_self be (\<lambda>m. m\<lparr>inited := True\<rparr>) w))"

definition boot_steps :: "boot_env \<Rightarrow> (val \<Rightarrow> val prom) list" where
  "boot_steps be =
     [then_getNodeId be, then_isNodeManager be, then_requireManager be,
      then_emptyTemp be, then_emptyGenerated be,
      then_ensureLetsEncryptEtc be, then_ensureLetsEncryptLib be, then_ensureStaticFiles be,
      then_ensurePerAppNginx be, then_ensureBaseNginx be, then_ensureRegistryPath be,
      then_ensureOverlayNetwork be, then_ensureServiceConnected be,
      then_ensureSecret be, then_ensureSecretOnService be, then_haltIfSecretNew be,
      then_readSecret be, then_setEncryptionSalt be, then_initLoadBalancer be,
      then_migrate be, then_initCertbot be, then_getAllRegistries be,
      then_ensureRegistry be, then_markReady be]"

text \<open>The chain before its \<open>catch\<close>.\<close>

definition boot_chain :: "boot_env \<Rightarrow> val prom" where
  "boot_chain be = chain (refreshForceSslState be) (boot_steps be)"

text \<open>
  The handler of the final \<open>catch\<close>: the error is logged and the exit with status 0
  is put on a 5 s timer.
\<close>

definition fatal_exit :: "error \<Rightarrow> val prom" where
  "fatal_exit err w =
     (Resolved Undefined, (emit [LogErr err] w)\<lparr>armed := armed w @ [(5000, ProcessExit 0)]\<rparr>)"

definition initialize :: "boot_env \<Rightarrow> val prom" where
  "initialize be = catch_p (boot_chain be) fatal_exit"

section \<open>Joining a node over SSH\<close>

text \<open>
  The collaborators of \<open>joinDockerNode\<close>: the join token the docker client hands
  out (a promise), and the join command it composes.
\<close>

record join_env =
  getJoinToken :: "bool \<Rightarrow> string settled"
  createJoinCommand :: "string \<Rightarrow> string \<Rightarrow> string"

text \<open>
  What the SSH client reports, in the order the event loop delivers it: an error or
  the readiness of the connection, the callback of \<open>conn.exec\<close> (with an error, or
  with the stream), and on the stream its closing (code and signal), data on standard
  output and data on standard error.
\<close>

datatype ssh_event =
    ConnError string
  | ConnReady
  | ExecFailed string
  | ExecStarted
  | StreamClose string string
  | StdoutData string
  | StderrData string

text \<open>
  The promise built by \<open>new Promise\<close>, the variable \<open>hasExisted\<close> of the
  callback of \<open>conn.exec\<close> (\<open>None\<close> until that callback has run and registered
  the handlers of the stream), and the effects so far.
\<close>

record join_state =
  promise :: "unit settled"
  hasExisted :: "bool option"
  joinTrace :: "effect list"

definition join_log :: "effect list \<Rightarrow> join_state \<Rightarrow> join_state" where
  "join_log es st = st\<lparr>joinTrace := joinTrace st @ es\<rparr>"

fun on_ssh_event :: "string \<Rightarrow> join_state \<Rightarrow> ssh_event \<Rightarrow> join_state" where
  "on_ssh_event cmd st (ConnError err) =
     (join_log [LogE err] st)
       \<lparr>promise := reject_promise (ApiError STATUS_ERROR_GENERIC ''SSH Connection error!!'')
                    (promise st)\<rparr>"
| "on_ssh_event cmd st ConnReady =
     join_log [LogD ''SSH Client :: ready'', Call ''conn.exec'' [cmd]] st"
| "on_ssh_event cmd st (ExecFailed err) =
     (join_log [LogE err] st)
       \<lparr>promise := reject_promise (ApiError STATUS_ERROR_GENERIC ''SSH Running command failed!!'')
                    (promise st)\<rparr>"
| "on_ssh_event cmd st ExecStarted = st\<lparr>hasExisted := Some False\<rparr>"
| "on_ssh_event cmd st (StreamClose code signal) =
     (case hasExisted st of
        None \<Rightarrow> st
      | Some h \<Rightarrow>
          (let st1 = join_log [LogD (''Stream :: close :: code: '' @ code @ '', signal: '' @ signal),
                               Call ''conn.end'' []] st
           in if h then st1
              else st1\<lparr>hasExisted := Some True, promise := resolve_promise () (promise st1)\<rparr>))"
| "on_ssh_event cmd st (StdoutData d) =
     (case hasExisted st of
        None \<Rightarrow> st
      | Some h \<Rightarrow> join_log [LogD (''STDOUT: '' @ d)] st)"
| "on_ssh_event cmd st (StderrData d) =
     (case hasExisted st of
        None \<Rightarrow> st
      | Some h \<Rightarrow>
          (let st1 = join_log [LogE (''STDERR: '' @ d)] st
           in if h then st1
              else st1\<lparr>hasExisted := Some True,
                       promise := reject_promise
                         (ApiError STATUS_ERROR_GENERIC (''Error during setup: '' @ d))
                         (promise st1)\<rparr>))"

text \<open>
  \<open>joinDockerNode\<close>: the token is fetched first; a failure of that promise is the
  outcome and no connection is opened. Otherwise the connection is opened as
  \<open>root\<close> on port 22 and the events are handled as they arrive. The promise the
  function returns follows the promise of \<open>new Promise\<close>.
\<close>

definition joinDockerNode ::
  "constants \<Rightarrow> join_env \<Rightarrow> string \<Rightarrow> bool \<Rightarrow> string \<Rightarrow> string \<Rightarrow> ssh_event list \<Rightarrow> join_state" where
  "joinDockerNode k env captainIpAddress isManager remoteNodeIpAddress privateKey events =
     (let remoteUserName = ''root'';
          asked = [Call ''dockerApi.getJoinToken'' [show_bool isManager]]
      in case getJoinToken env isManager of
           Rejected e \<Rightarrow> \<lparr>promise = Rejected e, hasExisted = None, joinTrace = asked\<rparr>
         | Pending \<Rightarrow> \<lparr>promise = Pending, hasExisted = None, joinTrace = asked\<rparr>
         | Resolved token \<Rightarrow>
             foldl (on_ssh_event
                      (disableFirewallCommand k @ '' '' @ createJoinCommand env captainIpAddress token))
               \<lparr>promise = Pending, hasExisted = None,
                joinTrace = asked @
                  [Call ''conn.connect'' [remoteNodeIpAddress, show_nat 22, remoteUserName, privateKey]]\<rparr>
               events)"

text \<open>
  The signals that can settle the operation once the remote command has started: an
  error of the connection, an error handed to the callback of \<open>conn.exec\<close>, the
  closing of the stream, and data on standard error.
\<close>

fun settling :: "ssh_event \<Rightarrow> bool" where
  "settling (ConnError err) = True"
| "settling (ExecFailed err) = True"
| "settling (StreamClose code signal) = True"
| "settling (StderrData d) = True"
| "settling e = False"

text \<open>The outcome the first settling signal stands for.\<close>

fun outcome_of :: "ssh_event option \<Rightarrow> unit settled" where
  "outcome_of (Some (StreamClose code signal)) = Resolved ()"
| "outcome_of (Some (StderrData d)) =
     Rejected (ApiError STATUS_ERROR_GENERIC (''Error during setup: '' @ d))"
| "outcome_of (Some (ConnError err)) =
     Rejected (ApiError STATUS_ERROR_GENERIC ''SSH Connection error!!'')"
| "outcome_of (Some (ExecFailed err)) =
     Rejected (ApiError STATUS_ERROR_GENERIC ''SSH Running command failed!!'')"
| "outcome_of e = Pending"

section \<open>Properties of the health monitor\<close>

text \<open>
  A run of cycles without a passed one: every cycle, in the state it starts in, is
  skipped or is decided with at least one failed probe. \<open>decided_cycles\<close> counts
  the cycles of a run that are not skipped.
\<close>

fun failing_run :: "constants \<Rightarrow> cycle list \<Rightarrow> monitor \<Rightarrow> bool" where
  "failing_run k [] w = True"
| "failing_run k (c # cs) w =
     ((skipped k c \<or> cycle_failed k c (start_cycle w)) \<and>
      failing_run k cs (performHealthCheck k c (start_cycle w)))"

definition decided_cycles :: "constants \<Rightarrow> cycle list \<Rightarrow> nat" where
  "decided_cycles k cs = length (filter (\<lambda>c. \<not> skipped k c) cs)"

text \<open>
  The invariant of one cycle: the monitor is the one \<open>scheduleIfNecessary\<close> yields
  from the slots filled so far, and each guard is set exactly when its slot is.
\<close>

definition cycle_inv :: "constants \<Rightarrow> cycle \<Rightarrow> monitor \<Rightarrow> probes \<times> monitor \<Rightarrow> bool" where
  "cycle_inv k c w0 pw =
     (snd pw = scheduleIfNecessary k c (fst pw) w0 \<and>
      captainCallbackCalled (fst pw) = (captainHealth (fst pw) \<noteq> None) \<and>
      nginxCallbackCalled (fst pw) = (nginxHealth (fst pw) \<noteq> None))"

lemma undecided_unchanged:
  "captainHealth pr = None \<or> nginxHealth pr = None \<Longrightarrow> scheduleIfNecessary k c pr w0 = w0"
  by (auto simp: scheduleIfNecessary_def split: option.splits)

lemma on_signal_inv:
  assumes "cycle_inv k c w0 pw"
  shows "cycle_inv k c w0 (on_signal k c pw s)"
proof (cases pw)
  case (Pair pr w)
  have w: "w = scheduleIfNecessary k c pr w0"
    and fc: "captainCallbackCalled pr = (captainHealth pr \<noteq> None)"
    and fn: "nginxCallbackCalled pr = (nginxHealth pr \<noteq> None)"
    using assms Pair by (simp_all add: cycle_inv_def)
  have c0: "\<not> captainCallbackCalled pr \<Longrightarrow> w = w0"
    using w fc undecided_unchanged [of pr k c w0] by simp
  have n0: "\<not> nginxCallbackCalled pr \<Longrightarrow> w = w0"
    using w fn undecided_unchanged [of pr k c w0] by simp
  show ?thesis
  proof (cases "exitStatus w \<noteq> None")
    case True
    then show ?thesis using assms Pair by (cases s) simp_all
  next
    case False
    show ?thesis
    proof (cases s)
      case CaptainTimeout
      then show ?thesis using assms Pair False c0 fn
        by (cases "captainCallbackCalled pr") (simp_all add: cycle_inv_def report_captain_def Let_def)
    next
      case (CaptainResponse err body)
      then show ?thesis using assms Pair False c0 fn
        by (cases "captainCallbackCalled pr") (auto simp: cycle_inv_def report_captain_def Let_def)
    next
      case NginxTimeout
      then show ?thesis using assms Pair False n0 fc
        by (cases "nginxCallbackCalled pr") (simp_all add: cycle_inv_def report_nginx_def Let_def)
    next
      case NginxVerified
      then show ?thesis using assms Pair False n0 fc
        by (cases "nginxCallbackCalled pr") (simp_all add: cycle_inv_def report_nginx_def Let_def)
    next
      case (NginxRejected e)
      then show ?thesis using assms Pair False n0 fc
        by (cases "nginxCallbackCalled pr") (simp_all add: cycle_inv_def report_nginx_def Let_def)
    qed
  qed
qed

lemma fold_inv:
  "cycle_inv k c w0 (foldl (on_signal k c) (no_probes, w0) sigs)"
proof (induction sigs rule: rev_induct)
  case Nil
  show ?case by (simp add: cycle_inv_def no_probes_def scheduleIfNecessary_def)
next
  case (snoc s sigs)
  then show ?case by (simp add: on_signal_inv)
qed

lemma performHealthCheck_decides:
  "\<not> skipped k c \<Longrightarrow> performHealthCheck k c w = scheduleIfNecessary k c (slots k c w) w"
  using fold_inv [of k c w "signals c"]
  by (simp add: performHealthCheck_def slots_def skipped_def cycle_inv_def)

lemma run_monitor_exited: "exitStatus w \<noteq> None \<Longrightarrow> run_monitor k cs w = w"
  by (cases cs) auto

lemma run_monitor_step:
  "exitStatus w = None \<Longrightarrow> (HEALTH_CHECK_INTERVAL, PerformHealthCheck) \<in> set (timers w) \<Longrightarrow>
   run_monitor k (c # cs) w = run_monitor k cs (performHealthCheck k c (start_cycle w))"
  by simp

lemma skipped_cycle:
  assumes "skipped k c"
  shows "consecutiveHealthCheckFailCount (self (performHealthCheck k c w)) = consecutiveHealthCheckFailCount (self w)"
    and "exitStatus (performHealthCheck k c w) = exitStatus w"
    and "(HEALTH_CHECK_INTERVAL, PerformHealthCheck) \<in> set (timers (performHealthCheck k c w))"
  using assms by (simp_all add: skipped_def performHealthCheck_def scheduleNextHealthCheck_def)

lemma failed_cycle:
  assumes "cycle_failed k c w" and "exitStatus w = None"
  shows "consecutiveHealthCheckFailCount (self (performHealthCheck k c w)) = consecutiveHealthCheckFailCount (self w) + 1"
    and "exitStatus (performHealthCheck k c w) = (if consecutiveHealthCheckFailCount (self w) + 1 > MAX_FAIL_ALLOWED then Some 1 else None)"
    and "(HEALTH_CHECK_INTERVAL, PerformHealthCheck) \<in> set (timers (performHealthCheck k c w))"
  using assms
  by (auto simp: cycle_failed_def performHealthCheck_decides scheduleIfNecessary_def
        scheduleNextHealthCheck_def Let_def split: option.splits)

lemma passed_cycle:
  assumes "cycle_passed k c w" and "exitStatus w = None"
  shows "consecutiveHealthCheckFailCount (self (performHealthCheck k c w)) = 0"
    and "exitStatus (performHealthCheck k c w) = None"
    and "(HEALTH_CHECK_INTERVAL, PerformHealthCheck) \<in> set (timers (performHealthCheck k c w))"
  using assms
  by (auto simp: cycle_passed_def performHealthCheck_decides scheduleIfNecessary_def
        scheduleNextHealthCheck_def Let_def MAX_FAIL_ALLOWED_def split: option.splits)

lemma start_cycle_simps [simp]:
  "exitStatus (start_cycle w) = exitStatus w"
  "self (start_cycle w) = self w"
  by (simp_all add: start_cycle_def)

lemma failing_run_count:
  assumes "failing_run k cs w"
    and "exitStatus w = None"
    and "(HEALTH_CHECK_INTERVAL, PerformHealthCheck) \<in> set (timers w)"
    and "consecutiveHealthCheckFailCount (self w) \<le> MAX_FAIL_ALLOWED"
  shows "exitStatus (run_monitor k cs w) =
           (if consecutiveHealthCheckFailCount (self w) + decided_cycles k cs > MAX_FAIL_ALLOWED
            then Some 1 else None)
       \<and> (if consecutiveHealthCheckFailCount (self w) + decided_cycles k cs > MAX_FAIL_ALLOWED
          then True
          else consecutiveHealthCheckFailCount (self (run_monitor k cs w))
                = consecutiveHealthCheckFailCount (self w) + decided_cycles k cs)"
  using assms
proof (induction cs arbitrary: w)
  case Nil
  then show ?case by (simp add: decided_cycles_def)
next
  case (Cons c cs)
  let ?w' = "performHealthCheck k c (start_cycle w)"
  have run: "run_monitor k (c # cs) w = run_monitor k cs ?w'"
    using Cons.prems by (simp add: run_monitor_step)
  have rest: "failing_run k cs ?w'" using Cons.prems by simp
  show ?case
  proof (cases "skipped k c")
    case True
    have "exitStatus ?w' = None" "(HEALTH_CHECK_INTERVAL, PerformHealthCheck) \<in> set (timers ?w')"
      "consecutiveHealthCheckFailCount (self ?w') = consecutiveHealthCheckFailCount (self w)"
      using skipped_cycle [OF True, of "start_cycle w"] Cons.prems by simp_all
    then show ?thesis
      using Cons.IH [OF rest] Cons.prems True run by (simp add: decided_cycles_def)
  next
    case False
    then have f: "cycle_failed k c (start_cycle w)" using Cons.prems by simp
    have alive: "exitStatus (start_cycle w) = None" using Cons.prems by simp
    note fc = failed_cycle [OF f alive]
    show ?thesis
    proof (cases "consecutiveHealthCheckFailCount (self w) + 1 > MAX_FAIL_ALLOWED")
      case True
      then have "exitStatus ?w' = Some 1" using fc by simp
      then show ?thesis using run True False run_monitor_exited [of ?w' k cs]
        by (simp add: decided_cycles_def)
    next
      case nf: False
      then have "exitStatus ?w' = None" "consecutiveHealthCheckFailCount (self ?w') \<le> MAX_FAIL_ALLOWED"
        "consecutiveHealthCheckFailCount (self ?w') = consecutiveHealthCheckFailCount (self w) + 1"
        using fc by simp_all
      then show ?thesis
        using Cons.IH [OF rest] fc(3) run False by (simp add: decided_cycles_def)
    qed
  qed
qed

text \<open>
  Claim C1. While the process is alive and the next cycle is armed: a decided cycle in
  which both probes succeed leaves the consecutive-failure counter at zero, the process
  alive and the next cycle armed; and from a counter of zero, a run of cycles each of
  which is skipped or decided with at least one failed probe ends in
  \<open>process.exit(1)\<close> exactly when it holds five decided cycles, and before that
  the counter equals the number of decided cycles.
\<close>

theorem health_monitor_five_failures:
  assumes "exitStatus w = None"
    and "(HEALTH_CHECK_INTERVAL, PerformHealthCheck) \<in> set (timers w)"
  shows "(cycle_passed k c (start_cycle w) \<longrightarrow>
            consecutiveHealthCheckFailCount (self (run_monitor k [c] w)) = 0 \<and>
            exitStatus (run_monitor k [c] w) = None \<and>
            (HEALTH_CHECK_INTERVAL, PerformHealthCheck) \<in> set (timers (run_monitor k [c] w)))
       \<and> (consecutiveHealthCheckFailCount (self w) = 0 \<and> failing_run k cs w \<longrightarrow>
            exitStatus (run_monitor k cs w) = (if 5 \<le> decided_cycles k cs then Some 1 else None) \<and>
            (decided_cycles k cs < 5 \<longrightarrow>
               consecutiveHealthCheckFailCount (self (run_monitor k cs w)) = decided_cycles k cs))"
proof -
  have one: "run_monitor k [c] w = performHealthCheck k c (start_cycle w)"
    using assms by simp
  have alive: "exitStatus (start_cycle w) = None" using assms by simp
  have p: "cycle_passed k c (start_cycle w) \<Longrightarrow>
      consecutiveHealthCheckFailCount (self (run_monitor k [c] w)) = 0 \<and>
      exitStatus (run_monitor k [c] w) = None \<and>
      (HEALTH_CHECK_INTERVAL, PerformHealthCheck) \<in> set (timers (run_monitor k [c] w))"
    using passed_cycle [of k c "start_cycle w"] alive one by simp
  have f: "consecutiveHealthCheckFailCount (self w) = 0 \<Longrightarrow> failing_run k cs w \<Longrightarrow>
      exitStatus (run_monitor k cs w) = (if 5 \<le> decided_cycles k cs then Some 1 else None) \<and>
      (if decided_cycles k cs < 5
       then consecutiveHealthCheckFailCount (self (run_monitor k cs w)) = decided_cycles k cs
       else True)"
    using failing_run_count [of k cs w] assms
    by (auto simp: MAX_FAIL_ALLOWED_def)
  show ?thesis using p f by simp
qed

subsection \<open>A concrete run\<close>

definition demo_constants :: constants where
  "demo_constants = \<lparr>isDebug = False, rootNameSpace = ''captain'', captainSubDomain = ''captain'',
     captainServiceName = ''captain-captain'', captainNetworkName = ''captain-overlay-network'',
     captainSaltSecretKey = ''captain-salt'', healthCheckEndPoint = ''/checkhealth'',
     captainConfirmationPath = ''/.well-known/captain-identifier'',
     captainStaticFilesDir = ''/captain/generated/static'',
     nginxDomainSpecificHtmlDir = ''/nginx/domains'', nginxPortNumber = 80,
     preCheckForWildCard = True, publishedNameOnDockerHub = ''caprover/caprover'',
     captainRootDirectoryTemp = ''/captain/temp'',
     captainRootDirectoryGenerated = ''/captain/generated'',
     letsEncryptEtcPath = ''/captain/data/letencrypt/etc'',
     letsEncryptLibPath = ''/captain/data/letencrypt/lib'',
     perAppNginxConfigPathBase = ''/captain/generated/nginx/conf.d'',
     baseNginxConfigPath = ''/captain/generated/nginx/nginx.conf'',
     registryPathOnHost = ''/captain/data/registry'',
     disableFirewallCommand = ''ufw disable;''\<rparr>"

definition demo_monitor :: monitor where
  "demo_monitor = \<lparr>self = new_manager 0 ''u0'',
     timers = [(HEALTH_CHECK_INTERVAL, PerformHealthCheck)], exitStatus = None, warnings = []\<rparr>"

definition failing_cycle :: cycle where
  "failing_cycle = \<lparr>hasCustomDomain = True, rootDomain = ''example.com'', nextUuid = ''u1'',
     signals = [NginxVerified, CaptainTimeout, CaptainResponse None (Some ''u0'')]\<rparr>"

definition passing_cycle :: cycle where
  "passing_cycle = \<lparr>hasCustomDomain = True, rootDomain = ''example.com'', nextUuid = ''u1'',
     signals = [CaptainResponse None (Some ''u0''), NginxVerified, NginxTimeout]\<rparr>"

lemmas monitor_eval =
  demo_constants_def demo_monitor_def failing_cycle_def passing_cycle_def new_manager_def
  start_cycle_def performHealthCheck_def scheduleIfNecessary_def scheduleNextHealthCheck_def
  report_captain_def report_nginx_def no_probes_def cycle_failed_def cycle_passed_def
  skipped_def slots_def truthy_def decided_cycles_def
  MAX_FAIL_ALLOWED_def HEALTH_CHECK_INTERVAL_def Let_def


lemma failing_cycle_fails:
  "exitStatus w = None \<Longrightarrow> cycle_failed demo_constants failing_cycle w"
  by (simp add: monitor_eval)

lemma failing_cycle_not_skipped: "\<not> skipped demo_constants failing_cycle"
  by (simp add: monitor_eval)

lemma failing_cycles_run:
  "exitStatus w = None \<Longrightarrow> consecutiveHealthCheckFailCount (self w) + n \<le> 5 \<Longrightarrow>
   failing_run demo_constants (replicate n failing_cycle) w"
proof (induction n arbitrary: w)
  case 0
  show ?case by simp
next
  case (Suc n)
  have alive: "exitStatus (start_cycle w) = None" using Suc.prems by simp
  have f: "cycle_failed demo_constants failing_cycle (start_cycle w)"
    using failing_cycle_fails [OF alive] .
  note fc = failed_cycle [OF f alive]
  show ?case
  proof (cases n)
    case 0
    then show ?thesis using f by simp
  next
    case (Suc m)
    then have "exitStatus (performHealthCheck demo_constants failing_cycle (start_cycle w)) = None"
      using fc Suc.prems by (simp add: MAX_FAIL_ALLOWED_def)
    then show ?thesis using Suc.IH fc f Suc.prems by simp
  qed
qed

theorem health_monitor_five_failures_witness:
  "exitStatus demo_monitor = None \<and>
   (HEALTH_CHECK_INTERVAL, PerformHealthCheck) \<in> set (timers demo_monitor) \<and>
   cycle_passed demo_constants passing_cycle (start_cycle demo_monitor) \<and>
   consecutiveHealthCheckFailCount (self demo_monitor) = 0 \<and>
   failing_run demo_constants (replicate 5 failing_cycle) demo_monitor \<and>
   exitStatus (run_monitor demo_constants (replicate 5 failing_cycle) demo_monitor) = Some 1 \<and>
   exitStatus (run_monitor demo_constants (replicate 4 failing_cycle) demo_monitor) = None \<and>
   consecutiveHealthCheckFailCount (self (run_monitor demo_constants [passing_cycle] demo_monitor)) = 0"
proof -
  have a: "exitStatus demo_monitor = None"
    and b: "(HEALTH_CHECK_INTERVAL, PerformHealthCheck) \<in> set (timers demo_monitor)"
    and z: "consecutiveHealthCheckFailCount (self demo_monitor) = 0"
    by (simp_all add: demo_monitor_def new_manager_def)
  have p: "cycle_passed demo_constants passing_cycle (start_cycle demo_monitor)"
    by (simp add: monitor_eval)
  have f5: "failing_run demo_constants (replicate 5 failing_cycle) demo_monitor"
    using failing_cycles_run [of demo_monitor 5] a z by simp
  have f4: "failing_run demo_constants (replicate 4 failing_cycle) demo_monitor"
    using failing_cycles_run [of demo_monitor 4] a z by simp
  have d: "decided_cycles demo_constants (replicate n failing_cycle) = n" for n
    using failing_cycle_not_skipped by (simp add: decided_cycles_def)
  show ?thesis
    using health_monitor_five_failures [OF a b, of demo_constants passing_cycle "replicate 5 failing_cycle"]
      health_monitor_five_failures [OF a b, of demo_constants passing_cycle "replicate 4 failing_cycle"]
      a b z p f5 f4 d
    by simp
qed

section \<open>Properties of the singleton accessor and the authenticator cache\<close>

lemma get_oid:
  "oid (fst (get u' (snd (get u s)))) = oid (fst (get u s))"
  by (simp add: get_def Let_def split: option.splits)

lemma get_sets: "captainManagerInstance (snd (get u s)) \<noteq> None"
  by (simp add: get_def Let_def split: option.splits)

lemma get_fst:
  "captainManagerInstance (snd (get u s)) = Some (fst (get u s))"
  by (simp add: get_def Let_def split: option.splits)

lemma get_existing:
  "captainManagerInstance s = Some m \<Longrightarrow> get u s = (m, s)"
  by (simp add: get_def)

lemma getAuthenticator_keeps_instance:
  "captainManagerInstance s = Some m \<Longrightarrow>
   captainManagerInstance (snd (getAuthenticator u n s)) = Some m \<and>
   managersBuilt (snd (getAuthenticator u n s)) = managersBuilt s"
  by (simp add: getAuthenticator_def get_def getCaptainSalt_def Let_def
      split: option.splits sum.splits)

lemma run_op_keeps_instance:
  "captainManagerInstance s = Some m \<Longrightarrow>
   \<exists>m'. captainManagerInstance (run_op s x) = Some m' \<and> oid m' = oid m
     \<and> managersBuilt (run_op s x) = managersBuilt s"
  by (cases x) (simp_all add: get_existing getAuthenticator_keeps_instance)

lemma run_ops_keeps_instance:
  "captainManagerInstance s = Some m \<Longrightarrow>
   \<exists>m'. captainManagerInstance (run_ops ops s) = Some m' \<and> oid m' = oid m
     \<and> managersBuilt (run_ops ops s) = managersBuilt s"
proof (induction ops arbitrary: s m)
  case Nil
  then show ?case by (simp add: run_ops_def)
next
  case (Cons x ops)
  obtain m' where m': "captainManagerInstance (run_op s x) = Some m'" "oid m' = oid m"
     "managersBuilt (run_op s x) = managersBuilt s"
    using run_op_keeps_instance [OF Cons.prems] by blast
  show ?case using Cons.IH [OF m'(1)] m' by (simp add: run_ops_def)
qed

text \<open>
  Claim C9. A call of \<open>CaptainManager.get()\<close> made after an earlier call, with any
  calls of the accessors and any storing of the salt in between, returns the object the
  earlier call returned (the same identity) and runs the constructor no further time;
  counted from the start of the process, the constructor has then run exactly once.
\<close>

theorem get_returns_the_one_instance:
  "oid (fst (get u' (run_ops ops (snd (get u s))))) = oid (fst (get u s))
   \<and> managersBuilt (snd (get u' (run_ops ops (snd (get u s)))))
       = managersBuilt (snd (get u s))
   \<and> managersBuilt (snd (get u' (run_ops ops (snd (get u init_statics))))) = 1"
proof -
  have gen: "oid (fst (get u' (run_ops ops (snd (get u s))))) = oid (fst (get u s))
   \<and> managersBuilt (snd (get u' (run_ops ops (snd (get u s)))))
       = managersBuilt (snd (get u s))" for s
  proof -
    obtain m' where "captainManagerInstance (run_ops ops (snd (get u s))) = Some m'"
      "oid m' = oid (fst (get u s))"
      "managersBuilt (run_ops ops (snd (get u s))) = managersBuilt (snd (get u s))"
      using run_ops_keeps_instance [OF get_fst] by blast
    then show ?thesis by (simp add: get_existing)
  qed
  have "managersBuilt (snd (get u init_statics)) = 1"
    by (simp add: get_def init_statics_def Let_def)
  then show ?thesis using gen [of s] gen [of init_statics] by simp
qed


text \<open>
  The invariant of the cache: the inherited members are what a lookup of their names
  finds, and no issuer is built for them; any other namespace has an entry exactly when
  an issuer was built for it, and that entry is an issuer; no namespace had two issuers
  built; and nothing was built before the salt was available.
\<close>

definition cache_inv :: "statics \<Rightarrow> bool" where
  "cache_inv s =
     ((\<forall>n. n \<in> set object_prototype_members \<longrightarrow>
           authenticatorCache s n = Some (Inherited n) \<and> n \<notin> snd ` set (authenticatorsBuilt s)) \<and>
      (\<forall>n. n \<notin> set object_prototype_members \<longrightarrow>
           (authenticatorCache s n = None) = (n \<notin> snd ` set (authenticatorsBuilt s)) \<and>
           (\<forall>v. authenticatorCache s n = Some v \<longrightarrow> (\<exists>a. v = Issuer a))) \<and>
      distinct (map snd (authenticatorsBuilt s)) \<and>
      (salt_available s \<or> authenticatorsBuilt s = []))"

lemma cache_inv_init: "cache_inv init_statics"
  by (simp add: cache_inv_def init_statics_def empty_object_def)

lemma cache_inv_get: "cache_inv s \<Longrightarrow> cache_inv (snd (get u s))"
  by (auto simp: cache_inv_def get_def salt_available_def Let_def split: option.splits)

lemma getAuthenticator_found:
  "n \<noteq> [] \<Longrightarrow> authenticatorCache s n = Some v \<Longrightarrow> getAuthenticator u n s = (Inr (Some v), s)"
  by (simp add: getAuthenticator_def)

lemma cache_inv_getAuthenticator:
  assumes "cache_inv s"
  shows "cache_inv (snd (getAuthenticator u n s))"
proof (cases "n = [] \<or> authenticatorCache s n \<noteq> None")
  case True
  then show ?thesis using assms by (auto simp: getAuthenticator_def)
next
  case False
  then have n: "n \<noteq> []" and miss: "authenticatorCache s n = None" by simp_all
  have fresh: "n \<notin> set object_prototype_members" "n \<notin> snd ` set (authenticatorsBuilt s)"
    using assms miss by (auto simp: cache_inv_def)
  show ?thesis
    using assms n miss fresh
    by (auto simp: cache_inv_def getAuthenticator_def get_def getCaptainSalt_def
        salt_available_def new_manager_def Let_def split: option.splits)
qed

lemma cache_inv_run_op: "cache_inv s \<Longrightarrow> cache_inv (run_op s x)"
proof (cases x)
  case (StoreSalt c)
  assume "cache_inv s"
  then show ?thesis using StoreSalt
    by (auto simp: cache_inv_def salt_available_def split: option.splits)
qed (simp_all add: cache_inv_get cache_inv_getAuthenticator)

lemma cache_inv_run_ops: "cache_inv s \<Longrightarrow> cache_inv (run_ops ops s)"
  unfolding run_ops_def by (induction ops arbitrary: s) (simp_all add: cache_inv_run_op)

lemma cache_kept_getAuthenticator:
  "authenticatorCache s n = Some v \<Longrightarrow>
   authenticatorCache (snd (getAuthenticator u n' s)) n = Some v"
  by (auto simp: getAuthenticator_def get_def getCaptainSalt_def Let_def
      split: option.splits)

lemma cache_kept_run_op:
  "authenticatorCache s n = Some v \<Longrightarrow> authenticatorCache (run_op s x) n = Some v"
  by (cases x) (auto simp: cache_kept_getAuthenticator get_def Let_def split: option.splits)

lemma cache_kept_run_ops:
  "authenticatorCache s n = Some v \<Longrightarrow> authenticatorCache (run_ops ops s) n = Some v"
  unfolding run_ops_def by (induction ops arbitrary: s) (simp_all add: cache_kept_run_op)

lemma getAuthenticator_ready:
  assumes "n \<noteq> []" and "n \<notin> set object_prototype_members" and "salt_available s"
    and "cache_inv s"
  shows "\<exists>a. fst (getAuthenticator u n s) = Inr (Some (Issuer a)) \<and>
       authenticatorCache (snd (getAuthenticator u n s)) n = Some (Issuer a)"
proof (cases "authenticatorCache s n")
  case None
  then show ?thesis using assms
    by (auto simp: getAuthenticator_def get_def getCaptainSalt_def salt_available_def
        Let_def split: option.splits)
next
  case (Some v)
  have "\<exists>a. v = Issuer a" using assms(2,4) Some unfolding cache_inv_def by blast
  then obtain a where "v = Issuer a" by blast
  then show ?thesis using Some assms(1) by (simp add: getAuthenticator_found)
qed

lemma getAuthenticator_not_ready:
  assumes "n \<noteq> []" and "n \<notin> set object_prototype_members" and "\<not> salt_available s"
    and "cache_inv s"
  shows "fst (getAuthenticator u n s) = Inl (JsError ''Captain Salt is not set yet!!'') \<and>
   authenticatorCache (snd (getAuthenticator u n s)) n = None \<and>
   built_for n (snd (getAuthenticator u n s)) = 0"
proof -
  have unbuilt: "authenticatorsBuilt s = []" using assms by (auto simp: cache_inv_def)
  then have miss: "authenticatorCache s n = None" using assms by (auto simp: cache_inv_def)
  have salt: "getCaptainSalt (fst (get u s)) = Inl (JsError ''Captain Salt is not set yet!!'')"
    using assms(3)
    by (simp add: get_def getCaptainSalt_def salt_available_def new_manager_def Let_def
        split: option.splits)
  have thrown: "getAuthenticator u n s = (Inl (JsError ''Captain Salt is not set yet!!''), snd (get u s))"
    using assms(1) miss salt by (simp add: getAuthenticator_def split_beta)
  have kept: "authenticatorCache (snd (get u s)) = authenticatorCache s"
    "authenticatorsBuilt (snd (get u s)) = authenticatorsBuilt s"
    by (simp_all add: get_def Let_def split: option.splits)
  show ?thesis using thrown kept miss unbuilt by (simp add: built_for_def)
qed

text \<open>
  A namespace that names an inherited member: the lookup finds the member, and the call
  returns it without reading the salt and without building an issuer.
\<close>

lemma getAuthenticator_inherited:
  assumes "n \<noteq> []" and "n \<in> set object_prototype_members"
  shows "getAuthenticator u n (run_ops ops init_statics)
           = (Inr (Some (Inherited n)), run_ops ops init_statics)"
proof -
  have "cache_inv (run_ops ops init_statics)" by (simp add: cache_inv_init cache_inv_run_ops)
  then have "authenticatorCache (run_ops ops init_statics) n = Some (Inherited n)"
    using assms by (simp add: cache_inv_def)
  then show ?thesis using assms(1) by (rule getAuthenticator_found [rotated])
qed

lemma filter_absent: "n \<notin> set xs \<Longrightarrow> filter (\<lambda>x. x = n) xs = []"
  by (induction xs) auto

lemma distinct_occurs_once:
  "distinct xs \<Longrightarrow> n \<in> set xs \<Longrightarrow> length (filter (\<lambda>x. x = n) xs) = 1"
  by (induction xs) (auto simp: filter_absent)

lemma built_once:
  assumes inv: "cache_inv s" and c: "authenticatorCache s n = Some (Issuer a)"
  shows "built_for n s = 1"
proof -
  have d: "distinct (map snd (authenticatorsBuilt s))" using inv by (simp add: cache_inv_def)
  have nm: "n \<notin> set object_prototype_members" using inv c by (auto simp: cache_inv_def)
  then have "(authenticatorCache s n = None) = (n \<notin> snd ` set (authenticatorsBuilt s))"
    using inv by (simp add: cache_inv_def)
  then have m: "n \<in> set (map snd (authenticatorsBuilt s))" using c by simp
  have "length (filter (\<lambda>x. x = n) (map snd (authenticatorsBuilt s))) = 1"
    using d m by (rule distinct_occurs_once)
  moreover have "length (filter (\<lambda>x. x = n) (map snd (authenticatorsBuilt s)))
      = length (filter (\<lambda>p. snd p = n) (authenticatorsBuilt s))"
    by (simp add: filter_map comp_def)
  ultimately show ?thesis by (simp add: built_for_def)
qed

text \<open>
  Claim C2, as amended. In every state the process can reach: an empty namespace fails
  with the not-authorized error and changes nothing; for a non-empty namespace that is
  not the name of a member inherited from \<open>Object.prototype\<close>, while the salt is not
  available the call fails with the error of \<open>getCaptainSalt\<close>
  (\<open>Captain Salt is not set yet!!\<close>) and neither builds nor caches an issuer; once
  the salt is available the call returns an issuer, every later call for the same
  namespace returns that same issuer, and the issuer of that namespace was built
  exactly once.
\<close>

theorem getAuthenticator_gate:
  "getAuthenticator u [] (run_ops ops init_statics)
     = (Inl (ApiError STATUS_ERROR_NOT_AUTHORIZED ''Empty namespace''), run_ops ops init_statics)
   \<and> (namespace \<noteq> [] \<and> namespace \<notin> set object_prototype_members \<and>
       \<not> salt_available (run_ops ops init_statics) \<longrightarrow>
        fst (getAuthenticator u namespace (run_ops ops init_statics))
          = Inl (JsError ''Captain Salt is not set yet!!'') \<and>
        authenticatorCache (snd (getAuthenticator u namespace (run_ops ops init_statics))) namespace = None \<and>
        built_for namespace (snd (getAuthenticator u namespace (run_ops ops init_statics))) = 0)
   \<and> (namespace \<noteq> [] \<and> namespace \<notin> set object_prototype_members \<and>
       salt_available (run_ops ops init_statics) \<longrightarrow>
        (\<exists>a. fst (getAuthenticator u namespace (run_ops ops init_statics)) = Inr (Some (Issuer a)) \<and>
             fst (getAuthenticator u' namespace
                    (run_ops ops' (snd (getAuthenticator u namespace (run_ops ops init_statics)))))
               = Inr (Some (Issuer a)) \<and>
             built_for namespace
               (snd (getAuthenticator u' namespace
                  (run_ops ops' (snd (getAuthenticator u namespace (run_ops ops init_statics)))))) = 1))"
proof -
  let ?s = "run_ops ops init_statics"
  let ?s1 = "snd (getAuthenticator u namespace ?s)"
  let ?s2 = "run_ops ops' ?s1"
  have inv: "cache_inv ?s" by (simp add: cache_inv_init cache_inv_run_ops)
  have inv2: "cache_inv ?s2" using inv by (simp add: cache_inv_getAuthenticator cache_inv_run_ops)
  have a: "getAuthenticator u [] ?s = (Inl (ApiError STATUS_ERROR_NOT_AUTHORIZED ''Empty namespace''), ?s)"
    by (simp add: getAuthenticator_def)
  have b: "namespace \<noteq> [] \<Longrightarrow> namespace \<notin> set object_prototype_members \<Longrightarrow>
        \<not> salt_available ?s \<Longrightarrow>
        fst (getAuthenticator u namespace ?s) = Inl (JsError ''Captain Salt is not set yet!!'') \<and>
        authenticatorCache ?s1 namespace = None \<and> built_for namespace ?s1 = 0"
    using getAuthenticator_not_ready [OF _ _ _ inv] by simp
  have c: "\<exists>a. fst (getAuthenticator u namespace ?s) = Inr (Some (Issuer a)) \<and>
             fst (getAuthenticator u' namespace ?s2) = Inr (Some (Issuer a)) \<and>
             built_for namespace (snd (getAuthenticator u' namespace ?s2)) = 1"
    if ne: "namespace \<noteq> []" and nm: "namespace \<notin> set object_prototype_members"
      and av: "salt_available ?s"
  proof -
    obtain a where a1: "fst (getAuthenticator u namespace ?s) = Inr (Some (Issuer a))"
      and a2: "authenticatorCache ?s1 namespace = Some (Issuer a)"
      using getAuthenticator_ready [OF ne nm av inv] by blast
    have k: "authenticatorCache ?s2 namespace = Some (Issuer a)" using a2 by (rule cache_kept_run_ops)
    have g: "getAuthenticator u' namespace ?s2 = (Inr (Some (Issuer a)), ?s2)"
      using getAuthenticator_found [OF ne k] .
    show ?thesis using a1 g built_once [OF inv2 k] by auto
  qed
  show ?thesis using a b c by blast
qed

lemma captain_not_inherited: "''captain'' \<notin> set object_prototype_members"
  by (simp add: object_prototype_members_def)

theorem getAuthenticator_gate_witness:
  "''captain'' \<noteq> [] \<and> ''captain'' \<notin> set object_prototype_members \<and>
   \<not> salt_available (run_ops [] init_statics) \<and>
   salt_available (run_ops [CallGet ''u0'', StoreSalt ''s3cr3t''] init_statics) \<and>
   fst (getAuthenticator ''u1'' ''captain'' (run_ops [] init_statics))
     = Inl (JsError ''Captain Salt is not set yet!!'') \<and>
   (\<exists>a. fst (getAuthenticator ''u1'' ''captain'' (run_ops [CallGet ''u0'', StoreSalt ''s3cr3t''] init_statics))
          = Inr (Some (Issuer a)) \<and>
        fst (getAuthenticator ''u2'' ''captain''
               (run_ops [] (snd (getAuthenticator ''u1'' ''captain''
                   (run_ops [CallGet ''u0'', StoreSalt ''s3cr3t''] init_statics)))))
          = Inr (Some (Issuer a)))"
proof -
  have n: "''captain'' \<noteq> []" by simp
  have u: "\<not> salt_available (run_ops [] init_statics)"
    by (simp add: run_ops_def salt_available_def init_statics_def)
  have v: "salt_available (run_ops [CallGet ''u0'', StoreSalt ''s3cr3t''] init_statics)"
    by (simp add: run_ops_def salt_available_def init_statics_def get_def Let_def)
  show ?thesis
    using getAuthenticator_gate [of "''u1''" "[]" "''captain''" "''u2''" "[]"]
      getAuthenticator_gate [of "''u1''" "[CallGet ''u0'', StoreSalt ''s3cr3t'']" "''captain''" "''u2''" "[]"]
      n u v captain_not_inherited
    by blast
qed

text \<open>
  Counterexample to claim C2 as stated: in the initial state the salt is not available,
  and the call for the namespace \<open>captain\<close> does not return \<open>undefined\<close> but
  throws.
\<close>

theorem getAuthenticator_gate_counterexample:
  "''captain'' \<noteq> [] \<and> \<not> salt_available init_statics \<and>
   fst (getAuthenticator ''u0'' ''captain'' init_statics) = Inl (JsError ''Captain Salt is not set yet!!'') \<and>
   fst (getAuthenticator ''u0'' ''captain'' init_statics) \<noteq> Inr None"
  by (simp add: getAuthenticator_def get_def getCaptainSalt_def salt_available_def
      init_statics_def empty_object_def object_prototype_members_def new_manager_def Let_def)

section \<open>Properties of the node join\<close>

lemma settled_kept:
  "promise st \<noteq> Pending \<Longrightarrow> promise (on_ssh_event cmd st e) = promise st"
  by (cases e; cases "promise st"; cases "hasExisted st")
    (simp_all add: join_log_def Let_def resolve_promise_def reject_promise_def)

lemma settled_kept_fold:
  "promise st \<noteq> Pending \<Longrightarrow> promise (foldl (on_ssh_event cmd) st evs) = promise st"
  by (induction evs arbitrary: st) (simp_all add: settled_kept)

lemma first_settling_signal:
  "hasExisted st = Some False \<Longrightarrow> promise st = Pending \<Longrightarrow>
   promise (foldl (on_ssh_event cmd) st evs) = outcome_of (find settling evs)"
proof (induction evs arbitrary: st)
  case Nil
  then show ?case by simp
next
  case (Cons e evs)
  let ?st = "on_ssh_event cmd st e"
  show ?case
  proof (cases "settling e")
    case False
    then have "hasExisted ?st = Some False" "promise ?st = Pending"
      using Cons.prems by (cases e; simp add: join_log_def)+
    then show ?thesis using Cons.IH [of ?st] False by simp
  next
    case True
    then have now: "promise ?st = outcome_of (Some e)"
      using Cons.prems
      by (cases e) (simp_all add: join_log_def Let_def resolve_promise_def reject_promise_def)
    then have "promise ?st \<noteq> Pending" using True by (cases e) simp_all
    then have "promise (foldl (on_ssh_event cmd) ?st evs) = promise ?st"
      by (rule settled_kept_fold)
    then show ?thesis using now True by simp
  qed
qed

lemma find_settling_append:
  "find settling evs \<noteq> None \<Longrightarrow> find settling (evs @ later) = find settling evs"
  by (induction evs) auto

text \<open>
  Claim C3, as amended. Once the join token was obtained and the remote command was
  started, the operation is pending until the first signal among: the stream closed,
  data on standard error, an error of the connection, an error handed to the callback
  of \<open>conn.exec\<close>. If that first signal is the closing of the stream, the operation
  resolves; if it is data on standard error, it is rejected with the message
  \<open>Error during setup: \<close> followed by the exact text received; if it is an error of
  the connection or of the execution, it is rejected with the fixed message of that
  error. Whatever arrives after that first signal leaves the outcome as it is.
\<close>

theorem joinDockerNode_settles_once:
  assumes "getJoinToken env isManager = Resolved token"
  shows "promise (joinDockerNode k env captainIp isManager remoteIp privateKey
                    ([ConnReady, ExecStarted] @ evs))
           = outcome_of (find settling evs)
       \<and> (find settling evs \<noteq> None \<longrightarrow>
            promise (joinDockerNode k env captainIp isManager remoteIp privateKey
                       ([ConnReady, ExecStarted] @ evs @ later))
              = promise (joinDockerNode k env captainIp isManager remoteIp privateKey
                           ([ConnReady, ExecStarted] @ evs)))"
proof -
  have run: "promise (joinDockerNode k env captainIp isManager remoteIp privateKey
                    ([ConnReady, ExecStarted] @ xs)) = outcome_of (find settling xs)" for xs
    using assms
    by (simp add: joinDockerNode_def Let_def join_log_def first_settling_signal)
  show ?thesis
    using run [of evs] run [of "evs @ later"] find_settling_append [of evs later] by simp
qed

definition demo_join_env :: join_env where
  "demo_join_env = \<lparr>getJoinToken = (\<lambda>isManager. Resolved ''SWMTKN-1''),
     createJoinCommand = (\<lambda>ip token. ''docker swarm join --token '' @ token @ '' '' @ ip @ '':2377'')\<rparr>"

theorem joinDockerNode_settles_once_witness:
  "getJoinToken demo_join_env False = Resolved ''SWMTKN-1'' \<and>
   find settling [StdoutData ''joined'', StreamClose ''0'' ''undefined''] \<noteq> None \<and>
   promise (joinDockerNode demo_constants demo_join_env ''10.0.0.1'' False ''10.0.0.2'' ''key''
              ([ConnReady, ExecStarted] @ [StdoutData ''joined'', StreamClose ''0'' ''undefined'']
                 @ [StderrData ''late'', ConnError ''reset''])) = Resolved () \<and>
   promise (joinDockerNode demo_constants demo_join_env ''10.0.0.1'' False ''10.0.0.2'' ''key''
              ([ConnReady, ExecStarted] @ [ConnError ''reset'', StreamClose ''0'' ''undefined'']))
     = Rejected (ApiError STATUS_ERROR_GENERIC ''SSH Connection error!!'')"
proof -
  have a: "getJoinToken demo_join_env False = Resolved ''SWMTKN-1''"
    by (simp add: demo_join_env_def)
  have d: "find settling [StdoutData ''joined'', StreamClose ''0'' ''undefined''] \<noteq> None"
    by simp
  show ?thesis
    using joinDockerNode_settles_once [OF a, of demo_constants "''10.0.0.1''" "''10.0.0.2''" "''key''"
        "[StdoutData ''joined'', StreamClose ''0'' ''undefined'']"
        "[StderrData ''late'', ConnError ''reset'']"]
      joinDockerNode_settles_once [OF a, of demo_constants "''10.0.0.1''" "''10.0.0.2''" "''key''"
        "[ConnError ''reset'', StreamClose ''0'' ''undefined'']" "[]"]
      a d
    by simp
qed

text \<open>
  Counterexample to claim C3 as stated: standard error emits \<open>boom\<close> before the
  stream closes, and the message of the rejection is not that text but
  \<open>Error during setup: boom\<close>.
\<close>

theorem joinDockerNode_message_counterexample:
  "promise (joinDockerNode demo_constants demo_join_env ''10.0.0.1'' False ''10.0.0.2'' ''key''
              [ConnReady, ExecStarted, StderrData ''boom'', StreamClose ''1'' ''undefined''])
     = Rejected (ApiError STATUS_ERROR_GENERIC ''Error during setup: boom'') \<and>
   error_message (ApiError STATUS_ERROR_GENERIC ''Error during setup: boom'') \<noteq> ''boom''"
  by (simp add: joinDockerNode_def demo_join_env_def join_log_def reject_promise_def Let_def)

section \<open>Properties of the timers\<close>

subsection \<open>A concrete environment\<close>

definition demo_token :: string where
  "demo_token = ''1b9d6bcd-bbfd-4b2d-9b5d-ab8dfbbd4bed''"

definition demo_env :: env where
  "demo_env = \<lparr>cfg = demo_constants, answer = (\<lambda>name args. Resolved ()), uuid = demo_token,
     request = (\<lambda>url. Some (None, Some demo_token)), getRootDomain = ''example.com'',
     getCaptainPublicRandomKey = demo_token, getHasRootSsl = Resolved False,
     parseJson = (\<lambda>body. Some (JObj [(''results'',
        JArr [JObj [(''name'', JStr ''latest'')], JObj [(''name'', JStr ''0.7.3'')]])])),
     toNumber = (\<lambda>v. None)\<rparr>"

definition failing_at :: "string \<Rightarrow> string \<Rightarrow> string list \<Rightarrow> unit settled" where
  "failing_at name n args = (if n = name then Rejected (Foreign ''refused'') else Resolved ())"

text \<open>
  Nobody holds the means to settle promise \<open>p\<close>: it exists and is pending, and no
  armed timer resolves it (every armed \<open>resolve\<close> belongs to another, existing
  promise).
\<close>

definition unheld :: "nat \<Rightarrow> world \<Rightarrow> bool" where
  "unheld p w =
     (p < length (promises w) \<and> promises w ! p = Pending \<and>
      list_all (\<lambda>t. case snd t of ResolvePromise q \<Rightarrow> q < length (promises w) \<and> q \<noteq> p | _ \<Rightarrow> True)
        (armed w))"

lemma unheld_resetSelf: "timers_ok w \<Longrightarrow> unheld (fst (resetSelf w)) (snd (resetSelf w))"
  by (auto simp: unheld_def timers_ok_def resetSelf_def emit_def Let_def list_all_iff
      split: task.splits)

lemma unheld_fire:
  assumes "unheld p w"
    and "case t of ResolvePromise q \<Rightarrow> q \<noteq> p | _ \<Rightarrow> True"
  shows "unheld p (fire env w t)"
  using assms by (cases t) (auto simp: unheld_def emit_def list_all_iff split: task.splits)

lemma unheld_fire_timer: "unheld p w \<Longrightarrow> unheld p (fire_timer env i w)"
proof -
  assume u: "unheld p w"
  show ?thesis
  proof (cases "i < length (armed w)")
    case False
    then show ?thesis using u by (simp add: fire_timer_def)
  next
    case True
    let ?w = "w\<lparr>armed := take i (armed w) @ drop (Suc i) (armed w)\<rparr>"
    have sub: "set (take i (armed w) @ drop (Suc i) (armed w)) \<subseteq> set (armed w)"
      using set_take_subset set_drop_subset by fastforce
    have u': "unheld p ?w" using u
      by (fastforce simp: unheld_def list_all_iff dest!: in_set_takeD in_set_dropD
          split: task.splits)
    have "armed w ! i \<in> set (armed w)" using True by simp
    then have t: "case snd (armed w ! i) of ResolvePromise q \<Rightarrow> q \<noteq> p | _ \<Rightarrow> True"
      using u by (auto simp: unheld_def list_all_iff split: task.splits)
    show ?thesis using unheld_fire [OF u' t] True by (simp add: fire_timer_def)
  qed
qed

lemma unheld_settle_delay: "unheld p w \<Longrightarrow> unheld p (snd (settle_delay ms w))"
  by (auto simp: unheld_def settle_delay_def Let_def list_all_iff nth_append split: task.splits)

lemma unheld_resetAgain: "unheld p w \<Longrightarrow> unheld p (snd (resetSelf w))"
  by (auto simp: unheld_def resetSelf_def emit_def Let_def list_all_iff nth_append split: task.splits)

lemma unheld_event: "unheld p w \<Longrightarrow> unheld p (on_loop_event env w e)"
  by (cases e) (simp_all add: unheld_fire_timer unheld_settle_delay unheld_resetAgain)

lemma unheld_run_loop: "unheld p w \<Longrightarrow> unheld p (run_loop env evs w)"
  unfolding run_loop_def by (induction evs arbitrary: w) (simp_all add: unheld_event)

lemma trace_kept_fire: "x \<in> set (trace w) \<Longrightarrow> x \<in> set (trace (fire env w t))"
  by (cases t) (simp_all add: emit_def)

lemma trace_kept_event: "x \<in> set (trace w) \<Longrightarrow> x \<in> set (trace (on_loop_event env w e))"
  by (cases e)
    (simp_all add: fire_timer_def trace_kept_fire settle_delay_def resetSelf_def emit_def Let_def)

lemma trace_kept_run_loop: "x \<in> set (trace w) \<Longrightarrow> x \<in> set (trace (run_loop env evs w))"
  unfolding run_loop_def by (induction evs arbitrary: w) (simp_all add: trace_kept_event)

lemma resetSelf_fires_update:
  "exitCode w = None \<Longrightarrow>
   Call ''dockerApi.updateService'' [captainServiceName (cfg env)]
     \<in> set (trace (fire_timer env (length (armed w)) (snd (resetSelf w))))"
  by (simp add: fire_timer_def resetSelf_def emit_def Let_def)

lemma resetSelf_timer:
  "armed (snd (resetSelf w)) ! length (armed w) = (2000, UpdateService) \<and>
   length (armed w) < length (armed (snd (resetSelf w)))"
  by (simp add: resetSelf_def emit_def Let_def)

text \<open>
  Claim C10. Whatever happens after a call of \<open>resetSelf\<close> (timers firing in any
  order, further delay promises, further calls of \<open>resetSelf\<close>), the promise it
  returned is pending. In particular, while the process is alive, once its own timer
  has fired the service-update request has been issued and the promise is still
  pending.
\<close>

theorem resetSelf_never_settles:
  assumes "timers_ok w"
  shows "promises (run_loop env evs (snd (resetSelf w))) ! fst (resetSelf w) = Pending
       \<and> (exitCode w = None \<longrightarrow>
            Call ''dockerApi.updateService'' [captainServiceName (cfg env)]
              \<in> set (trace (run_loop env (Fire (length (armed w)) # evs) (snd (resetSelf w)))) \<and>
            promises (run_loop env (Fire (length (armed w)) # evs) (snd (resetSelf w)))
              ! fst (resetSelf w) = Pending)"
proof -
  have u: "unheld (fst (resetSelf w)) (snd (resetSelf w))"
    using assms by (rule unheld_resetSelf)
  have p: "promises (run_loop env xs (snd (resetSelf w))) ! fst (resetSelf w) = Pending" for xs
    using unheld_run_loop [OF u, where env = env and evs = xs] by (simp add: unheld_def)
  have issued: "Call ''dockerApi.updateService'' [captainServiceName (cfg env)]
      \<in> set (trace (run_loop env (Fire (length (armed w)) # evs) (snd (resetSelf w))))"
    if "exitCode w = None"
    using trace_kept_run_loop [OF resetSelf_fires_update [OF that, where env = env],
        where env = env and evs = evs]
    by (simp add: run_loop_def)
  show ?thesis using p issued by simp
qed


lemma settle_delay_resolves:
  "exitCode w = None \<Longrightarrow>
   promises (fire_timer env (length (armed w)) (snd (settle_delay ms w))) ! fst (settle_delay ms w)
     = Resolved ()"
  by (simp add: fire_timer_def settle_delay_def Let_def resolve_promise_def)

theorem resetSelf_never_settles_witness:
  "timers_ok init_world \<and> exitCode init_world = None \<and>
   promises (run_loop demo_env [Fire 0, NewDelay 1000, Fire 0] (snd (resetSelf init_world)))
     ! fst (resetSelf init_world) = Pending \<and>
   Call ''dockerApi.updateService'' [captainServiceName (cfg demo_env)]
     \<in> set (trace (run_loop demo_env [Fire 0, NewDelay 1000, Fire 0] (snd (resetSelf init_world))))"
proof -
  have a: "timers_ok init_world" by (simp add: timers_ok_def init_world_def)
  have b: "exitCode init_world = None" "length (armed init_world) = 0"
    by (simp_all add: init_world_def)
  show ?thesis
    using resetSelf_never_settles [OF a, where env = demo_env and evs = "[NewDelay 1000, Fire 0]"] a b
    by simp
qed


section \<open>Properties of the promise chains\<close>

text \<open>The effects a computation added to the trace it started with.\<close>

definition added :: "world \<Rightarrow> world \<Rightarrow> effect list" where
  "added w w' = drop (length (trace w)) (trace w')"

lemma emit_emit [simp]: "emit es (emit es' w) = emit (es' @ es) w"
  by (simp add: emit_def)

lemma emit_nil [simp]: "emit [] w = w"
  by (simp add: emit_def)

lemma added_emit [simp]: "added w (emit es w) = es"
  by (simp add: added_def emit_def)

lemma exitCode_emit [simp]: "exitCode (emit es w) = exitCode w"
  by (simp add: emit_def)

lemma chain_Nil [simp]: "chain p [] = p"
  by (simp add: chain_def)

lemma chain_Cons [simp]: "chain p (f # fs) = chain (then_p p f) fs"
  by (simp add: chain_def)

lemma then_p_Resolved: "p w = (Resolved v, w1) \<Longrightarrow> then_p p f w = f v w1"
  by (simp add: then_p_def)

lemma then_p_Rejected: "p w = (Rejected e, w1) \<Longrightarrow> then_p p f w = (Rejected e, w1)"
  by (simp add: then_p_def)

lemma then_p_Pending: "p w = (Pending, w1) \<Longrightarrow> then_p p f w = (Pending, w1)"
  by (simp add: then_p_def)

lemma chain_Rejected: "p w = (Rejected e, w1) \<Longrightarrow> chain p fs w = (Rejected e, w1)"
  by (induction fs arbitrary: p) (simp_all add: then_p_Rejected)

lemma chain_Pending: "p w = (Pending, w1) \<Longrightarrow> chain p fs w = (Pending, w1)"
  by (induction fs arbitrary: p) (simp_all add: then_p_Pending)

lemma chain_calls_from:
  "p w = (Resolved Undefined, w1) \<Longrightarrow>
   chain p (map (\<lambda>c x. call_unit env (fst c) (snd c)) cs) w
     = (calls_outcome env cs, emit (map as_call (calls_made env cs)) w1)"
proof (induction cs arbitrary: p w1)
  case Nil
  then show ?case by simp
next
  case (Cons c cs)
  let ?q = "then_p p (\<lambda>x. call_unit env (fst c) (snd c))"
  have q: "?q w = (map_settled (\<lambda>u. Undefined) (answer env (fst c) (snd c)), emit [as_call c] w1)"
    using Cons.prems by (simp add: then_p_def call_unit_def call_def as_call_def)
  show ?case
  proof (cases "answer env (fst c) (snd c)")
    case (Resolved u)
    then show ?thesis using Cons.IH [of ?q "emit [as_call c] w1"] q by simp
  next
    case (Rejected e)
    then show ?thesis using chain_Rejected [of ?q w e "emit [as_call c] w1"] q by simp
  next
    case Pending
    then show ?thesis using chain_Pending [of ?q w "emit [as_call c] w1"] q by simp
  qed
qed

lemma enableSsl_sequential:
  "enableSsl env emailAddress w
     = (calls_outcome env (enableSsl_calls env emailAddress),
        emit (map as_call (calls_made env (enableSsl_calls env emailAddress))) w)"
proof -
  have "enableSsl env emailAddress
      = chain (resolved Undefined)
          (map (\<lambda>c x. call_unit env (fst c) (snd c)) (enableSsl_calls env emailAddress))"
    by (simp add: enableSsl_def enableSsl_calls_def)
  then show ?thesis
    using chain_calls_from [of "resolved Undefined" w w env "enableSsl_calls env emailAddress"]
    by (simp add: resolved_def)
qed

lemma calls_made_prefix: "prefix (calls_made env cs) cs"
  by (induction cs) (auto split: settled.splits)

lemma calls_made_all:
  "list_all (\<lambda>c. answer env (fst c) (snd c) = Resolved ()) cs \<Longrightarrow>
   calls_made env cs = cs \<and> calls_outcome env cs = Resolved Undefined"
  by (induction cs) simp_all

text \<open>
  Claim C5. \<open>enableSsl\<close> makes its calls in the order register, issue, persist
  email, persist flag, regenerate, reload, each after the promise of the one before was
  fulfilled: the calls it makes are exactly those of this sequence up to and including
  the first one that is not fulfilled, and its outcome is the outcome of that call (or
  success, after all six). So when all six are fulfilled, all six are made, in this
  order. If registration is rejected, the rejection is the caller's and nothing but the
  registration was called; if registration succeeds and issuance is rejected, the
  rejection is the caller's and only these two were called: the flag is not persisted,
  the proxy configuration is not regenerated and no reload is signalled.
\<close>

theorem enableSsl_order:
  "enableSsl env emailAddress w
     = (calls_outcome env (enableSsl_calls env emailAddress),
        emit (map as_call (calls_made env (enableSsl_calls env emailAddress))) w)
   \<and> prefix (added w (snd (enableSsl env emailAddress w)))
        (map as_call (enableSsl_calls env emailAddress))
   \<and> (list_all (\<lambda>c. answer env (fst c) (snd c) = Resolved ()) (enableSsl_calls env emailAddress) \<longrightarrow>
        fst (enableSsl env emailAddress w) = Resolved Undefined \<and>
        added w (snd (enableSsl env emailAddress w))
          = [Call ''certbotManager.ensureRegistered'' [emailAddress],
             Call ''certbotManager.enableSsl''
               [captainSubDomain (cfg env) @ ''.'' @ getRootDomain env],
             Call ''dataStore.setUserEmailAddress'' [emailAddress],
             Call ''dataStore.setHasRootSsl'' [show_bool True],
             Call ''loadBalancerManager.rePopulateNginxConfigFile'' [],
             Call ''loadBalancerManager.sendReloadSignal'' []])
   \<and> (answer env ''certbotManager.ensureRegistered'' [emailAddress] = Rejected e \<longrightarrow>
        fst (enableSsl env emailAddress w) = Rejected e \<and>
        added w (snd (enableSsl env emailAddress w))
          = [Call ''certbotManager.ensureRegistered'' [emailAddress]])
   \<and> (answer env ''certbotManager.ensureRegistered'' [emailAddress] = Resolved () \<and>
       answer env ''certbotManager.enableSsl''
         [captainSubDomain (cfg env) @ ''.'' @ getRootDomain env] = Rejected e \<longrightarrow>
        fst (enableSsl env emailAddress w) = Rejected e \<and>
        added w (snd (enableSsl env emailAddress w))
          = [Call ''certbotManager.ensureRegistered'' [emailAddress],
             Call ''certbotManager.enableSsl''
               [captainSubDomain (cfg env) @ ''.'' @ getRootDomain env]])"
proof -
  have p: "prefix (map as_call (calls_made env (enableSsl_calls env emailAddress)))
        (map as_call (enableSsl_calls env emailAddress))"
    using calls_made_prefix by (rule map_mono_prefix)
  have ordered: "prefix (added w (snd (enableSsl env emailAddress w)))
        (map as_call (enableSsl_calls env emailAddress))"
    using p by (simp add: enableSsl_sequential)
  have complete: "fst (enableSsl env emailAddress w) = Resolved Undefined \<and>
        added w (snd (enableSsl env emailAddress w))
          = [Call ''certbotManager.ensureRegistered'' [emailAddress],
             Call ''certbotManager.enableSsl''
               [captainSubDomain (cfg env) @ ''.'' @ getRootDomain env],
             Call ''dataStore.setUserEmailAddress'' [emailAddress],
             Call ''dataStore.setHasRootSsl'' [show_bool True],
             Call ''loadBalancerManager.rePopulateNginxConfigFile'' [],
             Call ''loadBalancerManager.sendReloadSignal'' []]"
    if "list_all (\<lambda>c. answer env (fst c) (snd c) = Resolved ()) (enableSsl_calls env emailAddress)"
    using calls_made_all [OF that]
    by (simp add: enableSsl_sequential) (simp add: enableSsl_calls_def as_call_def)
  have failures: "(answer env ''certbotManager.ensureRegistered'' [emailAddress] = Rejected e \<longrightarrow>
        fst (enableSsl env emailAddress w) = Rejected e \<and>
        added w (snd (enableSsl env emailAddress w))
          = [Call ''certbotManager.ensureRegistered'' [emailAddress]])
   \<and> (answer env ''certbotManager.ensureRegistered'' [emailAddress] = Resolved () \<and>
       answer env ''certbotManager.enableSsl''
         [captainSubDomain (cfg env) @ ''.'' @ getRootDomain env] = Rejected e \<longrightarrow>
        fst (enableSsl env emailAddress w) = Rejected e \<and>
        added w (snd (enableSsl env emailAddress w))
          = [Call ''certbotManager.ensureRegistered'' [emailAddress],
             Call ''certbotManager.enableSsl''
               [captainSubDomain (cfg env) @ ''.'' @ getRootDomain env]])"
    by (auto simp add: enableSsl_sequential enableSsl_calls_def as_call_def)
  show ?thesis using enableSsl_sequential [of env emailAddress w] ordered complete failures by blast
qed

lemma awaited_settle_delay:
  "exitCode w = None \<Longrightarrow>
   awaited env (settle_delay ms) w = (Resolved Undefined, w\<lparr>promises := promises w @ [Resolved ()]\<rparr>)"
  by (simp add: awaited_def settle_delay_def Let_def resolve_promise_def)



definition verificationFailed :: error where
  "verificationFailed = ApiError VERIFICATION_FAILED ''Verification Failed.''"




lemma demo_control_domain:
  "captainSubDomain (cfg demo_env) @ ''.'' @ getRootDomain demo_env = ''captain.example.com''"
  by (simp add: demo_env_def demo_constants_def)

lemma demo_env_simps:
  "answer demo_env name args = Resolved ()"
  "uuid demo_env = demo_token"
  "request demo_env url = Some (None, Some demo_token)"
  "getRootDomain demo_env = ''example.com''"
  "getCaptainPublicRandomKey demo_env = demo_token"
  "getHasRootSsl demo_env = Resolved False"
  "isDebug (cfg demo_env) = False"
  "parseJson demo_env b = Some (JObj [(''results'',
        JArr [JObj [(''name'', JStr ''latest'')], JObj [(''name'', JStr ''0.7.3'')]])])"
  by (simp_all add: demo_env_def demo_constants_def)

lemma demo_token_nonempty: "demo_token \<noteq> []"
  by (simp add: demo_token_def)

lemmas verify_unfold =
  verifyCaptainOwnsDomainOrThrow_def poll_confirmation_def then_p_def call_unit_def call_def
  resolved_def added_def emit_def verificationFailed_def Let_def

lemma verify_invalid_domain:
  assumes "answer env ''certbotManager.domainValidOrThrow'' [domainName] = Rejected e"
  shows "fst (verifyCaptainOwnsDomainOrThrow env domainName sfx w) = Rejected e"
    and "added w (snd (verifyCaptainOwnsDomainOrThrow env domainName sfx w))
          = [Call ''certbotManager.domainValidOrThrow'' [domainName]]"
  using assms by (simp_all add: verify_unfold)

lemma verify_write_failed:
  assumes "answer env ''certbotManager.domainValidOrThrow'' [domainName] = Resolved ()"
    and "answer env ''fs.outputFile'' [confirmationFile env domainName sfx, uuid env] = Rejected e"
  shows "fst (verifyCaptainOwnsDomainOrThrow env domainName sfx w) = Rejected e"
    and "added w (snd (verifyCaptainOwnsDomainOrThrow env domainName sfx w))
          = [Call ''certbotManager.domainValidOrThrow'' [domainName],
             Call ''fs.outputFile'' [confirmationFile env domainName sfx, uuid env]]"
  using assms by (simp_all add: verify_unfold)

text \<open>
  The state in which the request is sent: the domain was checked, the token was written
  to the confirmation file, and the promise of the settle delay was resolved by its
  timer.
\<close>

definition token_written :: "env \<Rightarrow> string \<Rightarrow> string option \<Rightarrow> world \<Rightarrow> world" where
  "token_written env domainName sfx w =
     (emit [Call ''certbotManager.domainValidOrThrow'' [domainName],
            Call ''fs.outputFile'' [confirmationFile env domainName sfx, uuid env]] w)
       \<lparr>promises := promises w @ [Resolved ()]\<rparr>"

lemma verify_polled:
  assumes "answer env ''certbotManager.domainValidOrThrow'' [domainName] = Resolved ()"
    and "answer env ''fs.outputFile'' [confirmationFile env domainName sfx, uuid env] = Resolved ()"
    and "exitCode w = None"
  shows "verifyCaptainOwnsDomainOrThrow env domainName sfx w
     = poll_confirmation env domainName (confirmationUrl env domainName sfx) (uuid env)
         (token_written env domainName sfx w)"
  using assms
  by (simp add: verifyCaptainOwnsDomainOrThrow_def then_p_def call_unit_def call_def resolved_def
      awaited_settle_delay token_written_def Let_def) (simp add: emit_def)

text \<open>
  Claim C4. If the certificate manager rejects the domain name, the verification is
  rejected with that same error and nothing else is done. If the domain name is
  accepted but writing the token file fails, the verification is rejected with that
  error and no request is sent. If the domain name is accepted and the token file is
  written (the process being alive, the token being non-empty as every \<open>uuid()\<close>
  is), then: the calls made are, in this order, the check of the domain, the writing of
  the fresh token to the confirmation file of the domain and suffix, and one HTTP
  request to the confirmation URL, the promise of the settle delay having been resolved
  by its timer; for the
  answer \<open>(err, body)\<close> of that request the verification succeeds exactly when
  there is no transport error and the body is the token written; otherwise it is
  rejected with the verification error; and exactly one request was sent.
\<close>

theorem verifyCaptainOwnsDomainOrThrow_iff:
  "(answer env ''certbotManager.domainValidOrThrow'' [domainName] = Rejected e \<longrightarrow>
      fst (verifyCaptainOwnsDomainOrThrow env domainName sfx w) = Rejected e \<and>
      added w (snd (verifyCaptainOwnsDomainOrThrow env domainName sfx w))
        = [Call ''certbotManager.domainValidOrThrow'' [domainName]])
   \<and> (answer env ''certbotManager.domainValidOrThrow'' [domainName] = Resolved () \<and>
       answer env ''fs.outputFile'' [confirmationFile env domainName sfx, uuid env] = Rejected e \<longrightarrow>
      fst (verifyCaptainOwnsDomainOrThrow env domainName sfx w) = Rejected e \<and>
      added w (snd (verifyCaptainOwnsDomainOrThrow env domainName sfx w))
        = [Call ''certbotManager.domainValidOrThrow'' [domainName],
           Call ''fs.outputFile'' [confirmationFile env domainName sfx, uuid env]])
   \<and> (answer env ''certbotManager.domainValidOrThrow'' [domainName] = Resolved () \<and>
       answer env ''fs.outputFile'' [confirmationFile env domainName sfx, uuid env] = Resolved () \<and>
       exitCode w = None \<and> uuid env \<noteq> [] \<and>
       request env (confirmationUrl env domainName sfx) = Some (err, body) \<longrightarrow>
        verifyCaptainOwnsDomainOrThrow env domainName sfx w
          = poll_confirmation env domainName (confirmationUrl env domainName sfx) (uuid env)
              (token_written env domainName sfx w) \<and>
        take 3 (added w (snd (verifyCaptainOwnsDomainOrThrow env domainName sfx w)))
          = [Call ''certbotManager.domainValidOrThrow'' [domainName],
             Call ''fs.outputFile'' [confirmationFile env domainName sfx, uuid env],
             Call ''request'' [confirmationUrl env domainName sfx]] \<and>
        promises (snd (verifyCaptainOwnsDomainOrThrow env domainName sfx w))
          = promises w @ [Resolved ()] \<and>
        ((fst (verifyCaptainOwnsDomainOrThrow env domainName sfx w) = Resolved Undefined)
           = (err = None \<and> body = Some (uuid env))) \<and>
        (fst (verifyCaptainOwnsDomainOrThrow env domainName sfx w) = Resolved Undefined \<or>
         fst (verifyCaptainOwnsDomainOrThrow env domainName sfx w) = Rejected verificationFailed) \<and>
        length (filter (is_call ''request'')
                  (added w (snd (verifyCaptainOwnsDomainOrThrow env domainName sfx w)))) = 1)"
proof -
  have polled: "verifyCaptainOwnsDomainOrThrow env domainName sfx w
          = poll_confirmation env domainName (confirmationUrl env domainName sfx) (uuid env)
              (token_written env domainName sfx w) \<and>
        take 3 (added w (snd (verifyCaptainOwnsDomainOrThrow env domainName sfx w)))
          = [Call ''certbotManager.domainValidOrThrow'' [domainName],
             Call ''fs.outputFile'' [confirmationFile env domainName sfx, uuid env],
             Call ''request'' [confirmationUrl env domainName sfx]] \<and>
        promises (snd (verifyCaptainOwnsDomainOrThrow env domainName sfx w))
          = promises w @ [Resolved ()] \<and>
        ((fst (verifyCaptainOwnsDomainOrThrow env domainName sfx w) = Resolved Undefined)
           = (err = None \<and> body = Some (uuid env))) \<and>
        (fst (verifyCaptainOwnsDomainOrThrow env domainName sfx w) = Resolved Undefined \<or>
         fst (verifyCaptainOwnsDomainOrThrow env domainName sfx w) = Rejected verificationFailed) \<and>
        length (filter (is_call ''request'')
                  (added w (snd (verifyCaptainOwnsDomainOrThrow env domainName sfx w)))) = 1"
    if v: "answer env ''certbotManager.domainValidOrThrow'' [domainName] = Resolved ()"
      and f: "answer env ''fs.outputFile'' [confirmationFile env domainName sfx, uuid env] = Resolved ()"
      and a: "exitCode w = None" and u: "uuid env \<noteq> []"
      and r: "request env (confirmationUrl env domainName sfx) = Some (err, body)"
  proof -
    note eq = verify_polled [OF v f a]
    have rest: "take 3 (added w (snd (verifyCaptainOwnsDomainOrThrow env domainName sfx w)))
          = [Call ''certbotManager.domainValidOrThrow'' [domainName],
             Call ''fs.outputFile'' [confirmationFile env domainName sfx, uuid env],
             Call ''request'' [confirmationUrl env domainName sfx]] \<and>
        promises (snd (verifyCaptainOwnsDomainOrThrow env domainName sfx w))
          = promises w @ [Resolved ()] \<and>
        ((fst (verifyCaptainOwnsDomainOrThrow env domainName sfx w) = Resolved Undefined)
           = (err = None \<and> body = Some (uuid env))) \<and>
        (fst (verifyCaptainOwnsDomainOrThrow env domainName sfx w) = Resolved Undefined \<or>
         fst (verifyCaptainOwnsDomainOrThrow env domainName sfx w) = Rejected verificationFailed) \<and>
        length (filter (is_call ''request'')
                  (added w (snd (verifyCaptainOwnsDomainOrThrow env domainName sfx w)))) = 1"
      using r u
      by (auto simp: eq poll_confirmation_def token_written_def added_def emit_def
          verificationFailed_def truthy_def Let_def)
    show ?thesis using eq rest by blast
  qed
  show ?thesis
    using verify_invalid_domain [where env = env and domainName = domainName and e = e and sfx = sfx and w = w]
      verify_write_failed [where env = env and domainName = domainName and e = e and sfx = sfx and w = w]
      polled
    by blast
qed

lemma collect_tags_array:
  "list_all (\<lambda>x. x \<noteq> JNull) items \<Longrightarrow> i \<le> length items \<Longrightarrow>
   collect_tags (JArr items) [i ..< length items] tags
     = Inr (tags @ map (get_prop ''name'') (drop i items))"
proof (induction "length items - i" arbitrary: i tags)
  case 0
  then show ?case by simp
next
  case (Suc n)
  then have lt: "i < length items" by simp
  have notnull: "items ! i \<noteq> JNull"
    using Suc.prems lt by (simp add: list_all_length)
  have step: "collect_tags (JArr items) [i ..< length items] tags
      = collect_tags (JArr items) [Suc i ..< length items] (tags @ [get_prop ''name'' (items ! i)])"
    using lt notnull by (cases "items ! i") (simp_all add: upt_conv_Cons)
  have "n = length items - Suc i" using Suc.hyps by simp
  then have "collect_tags (JArr items) [Suc i ..< length items] (tags @ [get_prop ''name'' (items ! i)])
      = Inr ((tags @ [get_prop ''name'' (items ! i)]) @ map (get_prop ''name'') (drop (Suc i) items))"
    using Suc.hyps(1) [of "Suc i"] Suc.prems lt by simp
  then show ?case using step lt by (simp add: Cons_nth_drop_Suc [symmetric])
qed

lemmas tags_unfold =
  getCaptainImageTags_def read_body_def read_results_def emit_def Let_def truthy_def

text \<open>
  Claim C8, as amended. The request to the registry hub is sent in every
  configuration. When it calls back: under debug configuration the single tag
  \<open>v0.0.1\<close> is returned whatever the answer; outside debug configuration a
  transport error is the rejection, an empty body or a body without \<open>results\<close> is
  rejected with the fixed error, and a body whose \<open>results\<close> is an array without
  \<open>null\<close> elements resolves with the \<open>name\<close> of each element, in order.
\<close>

theorem getCaptainImageTags_outcomes:
  "Call ''request'' [tagsUrl env] \<in> set (trace (snd (getCaptainImageTags env w)))
   \<and> (isDebug (cfg env) \<and> request env (tagsUrl env) = Some (err, body) \<longrightarrow>
        fst (getCaptainImageTags env w) = Resolved [Some (JStr ''v0.0.1'')])
   \<and> (\<not> isDebug (cfg env) \<and> request env (tagsUrl env) = Some (Some e, body) \<longrightarrow>
        fst (getCaptainImageTags env w) = Rejected e)
   \<and> (\<not> isDebug (cfg env) \<and> request env (tagsUrl env) = Some (None, body) \<and> \<not> truthy body \<longrightarrow>
        fst (getCaptainImageTags env w) = Rejected no_version_list)
   \<and> (\<not> isDebug (cfg env) \<and> request env (tagsUrl env) = Some (None, Some b) \<and> b \<noteq> [] \<and>
       parseJson env b = Some (JObj props) \<and> map_of props ''results'' = None \<longrightarrow>
        fst (getCaptainImageTags env w) = Rejected no_version_list)
   \<and> (\<not> isDebug (cfg env) \<and> request env (tagsUrl env) = Some (None, Some b) \<and> b \<noteq> [] \<and>
       parseJson env b = Some (JObj props) \<and> map_of props ''results'' = Some (JArr items) \<and>
       list_all (\<lambda>x. x \<noteq> JNull) items \<longrightarrow>
        fst (getCaptainImageTags env w) = Resolved (map (get_prop ''name'') items))"
proof -
  have sent: "Call ''request'' [tagsUrl env] \<in> set (trace (snd (getCaptainImageTags env w)))"
    by (auto simp: tags_unfold split: option.splits json.splits sum.splits)
  have listed: "fst (getCaptainImageTags env w) = Resolved (map (get_prop ''name'') items)"
    if "\<not> isDebug (cfg env)" "request env (tagsUrl env) = Some (None, Some b)" "b \<noteq> []"
      "parseJson env b = Some (JObj props)" "map_of props ''results'' = Some (JArr items)"
      "list_all (\<lambda>x. x \<noteq> JNull) items"
    using that collect_tags_array [of items 0 "[]"] by (simp add: tags_unfold)
  have rest: "(isDebug (cfg env) \<and> request env (tagsUrl env) = Some (err, body) \<longrightarrow>
        fst (getCaptainImageTags env w) = Resolved [Some (JStr ''v0.0.1'')])
   \<and> (\<not> isDebug (cfg env) \<and> request env (tagsUrl env) = Some (Some e, body) \<longrightarrow>
        fst (getCaptainImageTags env w) = Rejected e)
   \<and> (\<not> isDebug (cfg env) \<and> request env (tagsUrl env) = Some (None, body) \<and> \<not> truthy body \<longrightarrow>
        fst (getCaptainImageTags env w) = Rejected no_version_list)
   \<and> (\<not> isDebug (cfg env) \<and> request env (tagsUrl env) = Some (None, Some b) \<and> b \<noteq> [] \<and>
       parseJson env b = Some (JObj props) \<and> map_of props ''results'' = None \<longrightarrow>
        fst (getCaptainImageTags env w) = Rejected no_version_list)"
    by (auto simp: tags_unfold split: option.splits)
  show ?thesis using sent listed rest by blast
qed


text \<open>
  Counterexample to claim C8 as stated: under debug configuration the request to the
  registry hub is sent all the same.
\<close>

theorem getCaptainImageTags_debug_counterexample:
  "isDebug (cfg (demo_env\<lparr>cfg := demo_constants\<lparr>isDebug := True\<rparr>\<rparr>)) \<and>
   Call ''request'' [tagsUrl (demo_env\<lparr>cfg := demo_constants\<lparr>isDebug := True\<rparr>\<rparr>)]
     \<in> set (trace (snd (getCaptainImageTags
                           (demo_env\<lparr>cfg := demo_constants\<lparr>isDebug := True\<rparr>\<rparr>) init_world)))"
  by (simp add: getCaptainImageTags_def demo_env_def emit_def init_world_def Let_def)

subsection \<open>The chains in the concrete environment\<close>

theorem enableSsl_order_witness:
  "answer (demo_env\<lparr>answer := failing_at ''certbotManager.ensureRegistered''\<rparr>)
     ''certbotManager.ensureRegistered'' [''me@example.com''] = Rejected (Foreign ''refused'') \<and>
   fst (enableSsl (demo_env\<lparr>answer := failing_at ''certbotManager.ensureRegistered''\<rparr>)
          ''me@example.com'' init_world) = Rejected (Foreign ''refused'') \<and>
   answer (demo_env\<lparr>answer := failing_at ''certbotManager.enableSsl''\<rparr>)
     ''certbotManager.ensureRegistered'' [''me@example.com''] = Resolved () \<and>
   answer (demo_env\<lparr>answer := failing_at ''certbotManager.enableSsl''\<rparr>)
     ''certbotManager.enableSsl'' [''captain.example.com''] = Rejected (Foreign ''refused'') \<and>
   added init_world
     (snd (enableSsl (demo_env\<lparr>answer := failing_at ''certbotManager.enableSsl''\<rparr>)
             ''me@example.com'' init_world))
     = [Call ''certbotManager.ensureRegistered'' [''me@example.com''],
        Call ''certbotManager.enableSsl'' [''captain.example.com'']] \<and>
   list_all (\<lambda>c. answer demo_env (fst c) (snd c) = Resolved ())
     (enableSsl_calls demo_env ''me@example.com'') \<and>
   fst (enableSsl demo_env ''me@example.com'' init_world) = Resolved Undefined \<and>
   length (added init_world (snd (enableSsl demo_env ''me@example.com'' init_world))) = 6"
proof -
  let ?e1 = "demo_env\<lparr>answer := failing_at ''certbotManager.ensureRegistered''\<rparr>"
  let ?e2 = "demo_env\<lparr>answer := failing_at ''certbotManager.enableSsl''\<rparr>"
  have d: "captainSubDomain (cfg ?e2) @ ''.'' @ getRootDomain ?e2 = ''captain.example.com''"
    using demo_control_domain by simp
  have r1: "answer ?e1 ''certbotManager.ensureRegistered'' [''me@example.com'']
      = Rejected (Foreign ''refused'')"
    by (simp add: failing_at_def)
  have r2: "answer ?e2 ''certbotManager.ensureRegistered'' [''me@example.com''] = Resolved ()"
    by (simp add: failing_at_def)
  have r3: "answer ?e2 ''certbotManager.enableSsl''
      [captainSubDomain (cfg ?e2) @ ''.'' @ getRootDomain ?e2] = Rejected (Foreign ''refused'')"
    by (simp add: failing_at_def)
  have c1: "fst (enableSsl ?e1 ''me@example.com'' init_world) = Rejected (Foreign ''refused'')"
    using enableSsl_order [where env = ?e1 and emailAddress = "''me@example.com''"
        and w = init_world and e = "Foreign ''refused''"] r1
    by blast
  have c2: "added init_world (snd (enableSsl ?e2 ''me@example.com'' init_world))
     = [Call ''certbotManager.ensureRegistered'' [''me@example.com''],
        Call ''certbotManager.enableSsl'' [captainSubDomain (cfg ?e2) @ ''.'' @ getRootDomain ?e2]]"
    using enableSsl_order [where env = ?e2 and emailAddress = "''me@example.com''"
        and w = init_world and e = "Foreign ''refused''"] r2 r3
    by blast
  have r4: "list_all (\<lambda>c. answer demo_env (fst c) (snd c) = Resolved ())
      (enableSsl_calls demo_env ''me@example.com'')"
    by (simp add: enableSsl_calls_def demo_env_simps)
  have c3: "fst (enableSsl demo_env ''me@example.com'' init_world) = Resolved Undefined \<and>
      added init_world (snd (enableSsl demo_env ''me@example.com'' init_world))
        = [Call ''certbotManager.ensureRegistered'' [''me@example.com''],
           Call ''certbotManager.enableSsl''
             [captainSubDomain (cfg demo_env) @ ''.'' @ getRootDomain demo_env],
           Call ''dataStore.setUserEmailAddress'' [''me@example.com''],
           Call ''dataStore.setHasRootSsl'' [show_bool True],
           Call ''loadBalancerManager.rePopulateNginxConfigFile'' [],
           Call ''loadBalancerManager.sendReloadSignal'' []]"
    using enableSsl_order [where env = demo_env and emailAddress = "''me@example.com''"
        and w = init_world] r4
    by blast
  have c4: "length (added init_world (snd (enableSsl demo_env ''me@example.com'' init_world))) = 6"
    using c3 by simp
  show ?thesis using r1 r2 r3 r4 c1 c2 c3 c4 unfolding d by blast
qed


theorem verifyCaptainOwnsDomainOrThrow_iff_witness:
  "answer (demo_env\<lparr>answer := failing_at ''certbotManager.domainValidOrThrow''\<rparr>)
     ''certbotManager.domainValidOrThrow'' [''captain.example.com''] = Rejected (Foreign ''refused'') \<and>
   fst (verifyCaptainOwnsDomainOrThrow
          (demo_env\<lparr>answer := failing_at ''certbotManager.domainValidOrThrow''\<rparr>)
          ''captain.example.com'' (Some ''-healthcheck'') init_world) = Rejected (Foreign ''refused'') \<and>
   exitCode init_world = None \<and> uuid demo_env \<noteq> [] \<and>
   request demo_env (confirmationUrl demo_env ''captain.example.com'' (Some ''-healthcheck''))
     = Some (None, Some (uuid demo_env)) \<and>
   fst (verifyCaptainOwnsDomainOrThrow demo_env ''captain.example.com'' (Some ''-healthcheck'')
          init_world) = Resolved Undefined \<and>
   fst (verifyCaptainOwnsDomainOrThrow (demo_env\<lparr>answer := failing_at ''fs.outputFile''\<rparr>)
          ''captain.example.com'' (Some ''-healthcheck'') init_world) = Rejected (Foreign ''refused'')"
proof -
  let ?e1 = "demo_env\<lparr>answer := failing_at ''certbotManager.domainValidOrThrow''\<rparr>"
  let ?e3 = "demo_env\<lparr>answer := failing_at ''fs.outputFile''\<rparr>"
  have r3: "answer ?e3 ''certbotManager.domainValidOrThrow'' [''captain.example.com''] = Resolved ()"
    "answer ?e3 ''fs.outputFile''
       [confirmationFile ?e3 ''captain.example.com'' (Some ''-healthcheck''), uuid ?e3]
       = Rejected (Foreign ''refused'')"
    by (simp_all add: failing_at_def)
  have c3: "fst (verifyCaptainOwnsDomainOrThrow ?e3 ''captain.example.com'' (Some ''-healthcheck'')
      init_world) = Rejected (Foreign ''refused'')"
    using verifyCaptainOwnsDomainOrThrow_iff [where env = ?e3
        and domainName = "''captain.example.com''" and sfx = "Some ''-healthcheck''"
        and w = init_world and e = "Foreign ''refused''"] r3
    by blast
  have r1: "answer ?e1 ''certbotManager.domainValidOrThrow'' [''captain.example.com'']
      = Rejected (Foreign ''refused'')"
    by (simp add: failing_at_def)
  have c1: "fst (verifyCaptainOwnsDomainOrThrow ?e1 ''captain.example.com'' (Some ''-healthcheck'')
      init_world) = Rejected (Foreign ''refused'')"
    using verifyCaptainOwnsDomainOrThrow_iff [where env = ?e1
        and domainName = "''captain.example.com''" and sfx = "Some ''-healthcheck''"
        and w = init_world and e = "Foreign ''refused''"] r1
    by blast
  have alive: "exitCode init_world = None" by (simp add: init_world_def)
  have u: "uuid demo_env \<noteq> []" using demo_token_nonempty by (simp add: demo_env_simps)
  have q: "request demo_env (confirmationUrl demo_env ''captain.example.com'' (Some ''-healthcheck''))
      = Some (None, Some (uuid demo_env))"
    by (simp add: demo_env_simps)
  have c2: "fst (verifyCaptainOwnsDomainOrThrow demo_env ''captain.example.com''
      (Some ''-healthcheck'') init_world) = Resolved Undefined"
    using verifyCaptainOwnsDomainOrThrow_iff [where env = demo_env
        and domainName = "''captain.example.com''" and sfx = "Some ''-healthcheck''"
        and w = init_world and err = None and body = "Some (uuid demo_env)"]
      alive u q demo_env_simps(1)
    by blast
  show ?thesis using r1 c1 alive u q c2 c3 by blast
qed

theorem getCaptainImageTags_outcomes_witness:
  "fst (getCaptainImageTags (demo_env\<lparr>cfg := demo_constants\<lparr>isDebug := True\<rparr>\<rparr>) init_world)
     = Resolved [Some (JStr ''v0.0.1'')] \<and>
   fst (getCaptainImageTags
          (demo_env\<lparr>request := (\<lambda>url. Some (Some (Foreign ''ETIMEDOUT''), None))\<rparr>) init_world)
     = Rejected (Foreign ''ETIMEDOUT'') \<and>
   fst (getCaptainImageTags (demo_env\<lparr>request := (\<lambda>url. Some (None, None))\<rparr>) init_world)
     = Rejected no_version_list \<and>
   fst (getCaptainImageTags (demo_env\<lparr>parseJson := (\<lambda>body. Some (JObj []))\<rparr>) init_world)
     = Rejected no_version_list \<and>
   fst (getCaptainImageTags demo_env init_world)
     = Resolved [Some (JStr ''latest''), Some (JStr ''0.7.3'')]"
proof -
  let ?e1 = "demo_env\<lparr>cfg := demo_constants\<lparr>isDebug := True\<rparr>\<rparr>"
  let ?e2 = "demo_env\<lparr>request := (\<lambda>url. Some (Some (Foreign ''ETIMEDOUT''), None))\<rparr>"
  let ?e3 = "demo_env\<lparr>request := (\<lambda>url. Some (None, None))\<rparr>"
  let ?e4 = "demo_env\<lparr>parseJson := (\<lambda>body. Some (JObj []))\<rparr>"
  let ?items = "[JObj [(''name'', JStr ''latest'')], JObj [(''name'', JStr ''0.7.3'')]]"
  have h1: "isDebug (cfg ?e1)" "request ?e1 (tagsUrl ?e1) = Some (None, Some demo_token)"
    by (simp_all add: demo_env_simps)
  have c1: "fst (getCaptainImageTags ?e1 init_world) = Resolved [Some (JStr ''v0.0.1'')]"
    using getCaptainImageTags_outcomes [where env = ?e1 and w = init_world and err = None
        and body = "Some demo_token"] h1
    by blast
  have h2: "\<not> isDebug (cfg ?e2)"
    "request ?e2 (tagsUrl ?e2) = Some (Some (Foreign ''ETIMEDOUT''), None)"
    by (simp_all add: demo_env_simps)
  have c2: "fst (getCaptainImageTags ?e2 init_world) = Rejected (Foreign ''ETIMEDOUT'')"
    using getCaptainImageTags_outcomes [where env = ?e2 and w = init_world
        and e = "Foreign ''ETIMEDOUT''" and body = None] h2
    by blast
  have h3: "\<not> isDebug (cfg ?e3)" "request ?e3 (tagsUrl ?e3) = Some (None, None)"
    "\<not> truthy None"
    by (simp_all add: demo_env_simps truthy_def)
  have c3: "fst (getCaptainImageTags ?e3 init_world) = Rejected no_version_list"
    using getCaptainImageTags_outcomes [where env = ?e3 and w = init_world and body = None] h3
    by blast
  have h4: "\<not> isDebug (cfg ?e4)" "request ?e4 (tagsUrl ?e4) = Some (None, Some demo_token)"
    "demo_token \<noteq> []" "parseJson ?e4 demo_token = Some (JObj [])" "map_of [] ''results'' = (None :: json option)"
    using demo_token_nonempty by (simp_all add: demo_env_simps)
  have c4: "fst (getCaptainImageTags ?e4 init_world) = Rejected no_version_list"
    using getCaptainImageTags_outcomes [where env = ?e4 and w = init_world and b = demo_token
        and props = "[]"] h4
    by blast
  have h5: "\<not> isDebug (cfg demo_env)"
    "request demo_env (tagsUrl demo_env) = Some (None, Some demo_token)"
    "parseJson demo_env demo_token = Some (JObj [(''results'', JArr ?items)])"
    "map_of [(''results'', JArr ?items)] ''results'' = Some (JArr ?items)"
    "list_all (\<lambda>x. x \<noteq> JNull) ?items"
    by (simp_all add: demo_env_simps)
  have c5: "fst (getCaptainImageTags demo_env init_world) = Resolved (map (get_prop ''name'') ?items)"
    using getCaptainImageTags_outcomes [where env = demo_env and w = init_world and b = demo_token
        and props = "[(''results'', JArr ?items)]" and items = ?items] h5 demo_token_nonempty
    by blast
  show ?thesis using c1 c2 c3 c4 c5 by simp
qed

section \<open>Properties of the bootstrap\<close>

lemma chain_append: "chain p (xs @ ys) = chain (chain p xs) ys"
  by (simp add: chain_def)

lemma chain_aborts:
  assumes "chain p pre w = (Resolved v, w1)" and "f v w1 = (Rejected e, w2)"
  shows "chain p (pre @ f # post) w = (Rejected e, w2)"
proof -
  have "then_p (chain p pre) f w = (Rejected e, w2)"
    using assms by (simp add: then_p_def)
  then have "chain (then_p (chain p pre) f) post w = (Rejected e, w2)"
    by (rule chain_Rejected)
  then show ?thesis by (simp add: chain_append)
qed

lemma fatal_exit_exits:
  "exitCode w2 = None \<Longrightarrow>
   exitCode (fire_timer env (length (armed w2)) (snd (fatal_exit e w2))) = Some 0"
  by (simp add: fatal_exit_def fire_timer_def emit_def)

text \<open>
  Claim C7. If the chain of \<open>initialize\<close> is rejected, the error is logged, the
  exit with status 0 is put on a 5 s timer, and when that timer fires the process
  exits with status 0. The chain is rejected as soon as one step fails: a rejection of
  the first step, or of any handler after the handlers before it succeeded, is the
  rejection of the chain, in the state that step left: no handler after it runs and
  none runs again.
\<close>

theorem initialize_fatal_exit:
  "(boot_chain be w = (Rejected e, w2) \<longrightarrow>
      initialize be w
        = (Resolved Undefined, (emit [LogErr e] w2)\<lparr>armed := armed w2 @ [(5000, ProcessExit 0)]\<rparr>) \<and>
      (exitCode w2 = None \<longrightarrow>
         exitCode (fire_timer (base be) (length (armed w2)) (snd (initialize be w))) = Some 0))
   \<and> (refreshForceSslState be w = (Rejected e, w2) \<longrightarrow> boot_chain be w = (Rejected e, w2))
   \<and> (boot_steps be = pre @ f # post \<and>
       chain (refreshForceSslState be) pre w = (Resolved v, w1) \<and>
       f v w1 = (Rejected e, w2) \<longrightarrow>
        boot_chain be w = (Rejected e, w2))"
proof -
  have caught: "initialize be w = fatal_exit e w2" if "boot_chain be w = (Rejected e, w2)"
    using that by (simp add: initialize_def catch_p_def)
  have a: "initialize be w
        = (Resolved Undefined, (emit [LogErr e] w2)\<lparr>armed := armed w2 @ [(5000, ProcessExit 0)]\<rparr>) \<and>
      (exitCode w2 = None \<longrightarrow>
         exitCode (fire_timer (base be) (length (armed w2)) (snd (initialize be w))) = Some 0)"
    if "boot_chain be w = (Rejected e, w2)"
    using caught [OF that] fatal_exit_exits [of w2 "base be" e] by (simp add: fatal_exit_def)
  have b0: "boot_chain be w = (Rejected e, w2)" if "refreshForceSslState be w = (Rejected e, w2)"
    using that by (simp add: boot_chain_def chain_Rejected)
  have b: "boot_chain be w = (Rejected e, w2)"
    if "boot_steps be = pre @ f # post"
      and "chain (refreshForceSslState be) pre w = (Resolved v, w1)"
      and "f v w1 = (Rejected e, w2)"
    using that chain_aborts [of "refreshForceSslState be" pre w v w1 f e w2 post]
    by (simp add: boot_chain_def)
  show ?thesis using a b0 b by blast
qed

subsection \<open>A bootstrap on a node that is not a manager\<close>

definition demo_boot :: boot_env where
  "demo_boot = \<lparr>base = demo_env, getForceSsl = Resolved False,
     getNodeIdByServiceName = Resolved ''node-1'', isNodeManager = (\<lambda>n. Resolved False),
     ensureSecretOnService = Resolved True, pathExistsSync = (\<lambda>p. True),
     readFileSync = (\<lambda>p. Inr ''s3cr3t''), getNameSpace = ''captain'',
     migrateIfNeeded = Resolved False, getAllRegistries = Resolved []\<rparr>"

definition not_a_manager :: error where
  "not_a_manager = JsError ''Captain should only run on a manager node''"

lemma demo_boot_first_steps:
  "fst (chain (refreshForceSslState demo_boot) [then_getNodeId demo_boot, then_isNodeManager demo_boot]
          init_world) = Resolved (Bool False)"
  by (simp add: refreshForceSslState_def then_getNodeId_def then_isNodeManager_def then_p_def
      call_def resolved_def demo_boot_def)

lemma demo_boot_alive:
  "exitCode (snd (chain (refreshForceSslState demo_boot)
       [then_getNodeId demo_boot, then_isNodeManager demo_boot] init_world)) = None"
  by (simp add: refreshForceSslState_def then_getNodeId_def then_isNodeManager_def then_p_def
      call_def resolved_def demo_boot_def write_self_def emit_def init_world_def)

theorem initialize_fatal_exit_witness:
  "fst (initialize demo_boot init_world) = Resolved Undefined \<and>
   last (trace (snd (initialize demo_boot init_world))) = LogErr not_a_manager \<and>
   last (armed (snd (initialize demo_boot init_world))) = (5000, ProcessExit 0) \<and>
   exitCode (fire_timer demo_env
      (length (armed (snd (chain (refreshForceSslState demo_boot)
         [then_getNodeId demo_boot, then_isNodeManager demo_boot] init_world))))
      (snd (initialize demo_boot init_world))) = Some 0"
proof -
  let ?pre = "[then_getNodeId demo_boot, then_isNodeManager demo_boot]"
  let ?w1 = "snd (chain (refreshForceSslState demo_boot) ?pre init_world)"
  let ?post = "drop 3 (boot_steps demo_boot)"
  have split: "boot_steps demo_boot = ?pre @ then_requireManager demo_boot # ?post"
    by (simp add: boot_steps_def)
  have pre: "chain (refreshForceSslState demo_boot) ?pre init_world = (Resolved (Bool False), ?w1)"
    using demo_boot_first_steps by (simp add: prod_eq_iff)
  have fails: "then_requireManager demo_boot (Bool False) ?w1 = (Rejected not_a_manager, ?w1)"
    by (simp add: then_requireManager_def throw_def not_a_manager_def)
  have rejected: "boot_chain demo_boot init_world = (Rejected not_a_manager, ?w1)"
    using initialize_fatal_exit [where be = demo_boot and w = init_world and pre = ?pre
        and f = "then_requireManager demo_boot" and post = ?post and v = "Bool False"
        and ?w1.0 = ?w1 and ?w2.0 = ?w1 and e = not_a_manager]
      split pre fails
    by blast
  have b: "base demo_boot = demo_env" by (simp add: demo_boot_def)
  have both: "initialize demo_boot init_world
        = (Resolved Undefined, (emit [LogErr not_a_manager] ?w1)\<lparr>armed := armed ?w1 @ [(5000, ProcessExit 0)]\<rparr>) \<and>
        exitCode (fire_timer (base demo_boot) (length (armed ?w1)) (snd (initialize demo_boot init_world))) = Some 0"
    using initialize_fatal_exit [where be = demo_boot and w = init_world
        and ?w2.0 = ?w1 and e = not_a_manager] rejected demo_boot_alive
    by blast
  have i: "initialize demo_boot init_world
        = (Resolved Undefined, (emit [LogErr not_a_manager] ?w1)\<lparr>armed := armed ?w1 @ [(5000, ProcessExit 0)]\<rparr>)"
    using both by (rule conjunct1)
  have x: "exitCode (fire_timer demo_env (length (armed ?w1)) (snd (initialize demo_boot init_world))) = Some 0"
    using both [THEN conjunct2] unfolding b .
  have c1: "fst (initialize demo_boot init_world) = Resolved Undefined" using i by simp
  have c2: "last (trace (snd (initialize demo_boot init_world))) = LogErr not_a_manager"
    using i by (simp add: emit_def)
  have c3: "last (armed (snd (initialize demo_boot init_world))) = (5000, ProcessExit 0)"
    using i by simp
  show ?thesis using c1 c2 c3 x by blast
qed


end
